theory Spec2Isabelle
  imports Complex_Main
begin

section \<open>Exceptions\<close>

text \<open>
  The forecaster raises one exception class of its own, \<open>ForecastError\<close>
  (\<^verbatim>\<open>exceptions.py\<close>), always built from a literal text, in three places followed
  by the text of the exception it wraps (\<^verbatim>\<open>f"...: {e}"\<close>).  The value
  \<open>ForecastError msg cause\<close> keeps the literal and the wrapped exception apart.
  The remaining constructors are the exceptions of Python and of the numeric libraries
  that can reach the forecaster's \<^verbatim>\<open>except Exception\<close> handlers.
  \<open>InsufficientDataError\<close> is a name of the specification only: no function
  of the source constructs it, and it is here so that statements about it can be written.
\<close>

datatype exn =
    ForecastError string "exn option"
  | ZeroDivisionError
  | ValueError
  | TypeError
  | UFuncTypeError
  | OverflowError
  | Cv2Error string
  | InsufficientDataError

definition exn_bind :: "exn + 'a \<Rightarrow> ('a \<Rightarrow> exn + 'b) \<Rightarrow> exn + 'b" where
  "exn_bind m f = (case m of Inl e \<Rightarrow> Inl e | Inr x \<Rightarrow> f x)"

section \<open>Arrays\<close>

text \<open>
  A two-dimensional numpy array: its element type, its shape and its cells in row-major
  order.  Three element types occur: \<open>uint8\<close> (the tracker's input, the grid of
  a forecast result), \<open>float32\<close> (every working field and velocity field of the
  forecaster) and \<open>float64\<close> (what numpy makes of an integer array multiplied
  by a float).  Floating-point values are idealised as real numbers and floating-point
  arithmetic as exact; a \<open>uint8\<close> cell holds an integer between 0 and 255.  An
  array is well shaped when it has as many cells as its shape says, which every numpy
  array does.
\<close>

datatype dtype = UInt8 | Float32 | Float64

record ndarray =
  dtype :: dtype
  nrows :: nat
  ncols :: nat
  cells :: "real list"

definition shape :: "ndarray \<Rightarrow> nat \<times> nat" where
  "shape a = (nrows a, ncols a)"

definition well_shaped :: "ndarray \<Rightarrow> bool" where
  "well_shaped a = (length (cells a) = nrows a * ncols a)"

definition in_range :: "real \<Rightarrow> real \<Rightarrow> ndarray \<Rightarrow> bool" where
  "in_range lo hi a = list_all (\<lambda>x. lo \<le> x \<and> x \<le> hi) (cells a)"

text \<open>
  \<^verbatim>\<open>astype(np.uint8)\<close> on one value: the fraction is dropped (towards zero) and
  the integer is reduced modulo 256.
\<close>

definition to_uint8 :: "real \<Rightarrow> real" where
  "to_uint8 x = of_int ((if 0 \<le> x then \<lfloor>x\<rfloor> else \<lceil>x\<rceil>) mod 256)"

definition astype_uint8 :: "ndarray \<Rightarrow> ndarray" where
  "astype_uint8 a = a\<lparr>dtype := UInt8, cells := map to_uint8 (cells a)\<rparr>"

definition astype_float32 :: "ndarray \<Rightarrow> ndarray" where
  "astype_float32 a = a\<lparr>dtype := Float32\<rparr>"

definition clip :: "real \<Rightarrow> real \<Rightarrow> real \<Rightarrow> real" where
  "clip x lo hi = min (max x lo) hi"

definition np_clip :: "ndarray \<Rightarrow> real \<Rightarrow> real \<Rightarrow> ndarray" where
  "np_clip a lo hi = a\<lparr>cells := map (\<lambda>x. clip x lo hi) (cells a)\<rparr>"

definition zeros_like :: "ndarray \<Rightarrow> ndarray" where
  "zeros_like a = \<lparr>dtype = Float32, nrows = nrows a, ncols = ncols a,
     cells = replicate (nrows a * ncols a) 0\<rparr>"

text \<open>\<^verbatim>\<open>a[r, c] = x\<close>, for \<open>r\<close> and \<open>c\<close> inside the array.\<close>

definition setitem :: "ndarray \<Rightarrow> nat \<Rightarrow> nat \<Rightarrow> real \<Rightarrow> ndarray" where
  "setitem a r c x = a\<lparr>cells := (cells a)[r * ncols a + c := x]\<rparr>"

text \<open>
  Broadcasting.  numpy combines two arrays axis by axis: the lengths of an axis must be
  equal, or one of them is 1 and that array is repeated along the axis; otherwise the
  operation raises \<open>ValueError\<close>.  \<open>stretch a R C\<close> lists the cells of
  \<open>a\<close> repeated to the shape \<open>(R, C)\<close>.
\<close>

definition broadcast_dim :: "nat \<Rightarrow> nat \<Rightarrow> nat option" where
  "broadcast_dim m n =
     (if m = n \<or> n = 1 then Some m else if m = 1 then Some n else None)"

definition stretch :: "ndarray \<Rightarrow> nat \<Rightarrow> nat \<Rightarrow> real list" where
  "stretch a R C =
     map (\<lambda>k. cells a ! ((if nrows a = 1 then 0 else k div C) * ncols a
                            + (if ncols a = 1 then 0 else k mod C)))
       [0..<R * C]"

text \<open>
  The element type of the result of a binary operation, and what a cell of that type
  holds of a computed value.
\<close>

definition promote :: "dtype \<Rightarrow> dtype \<Rightarrow> dtype" where
  "promote s t =
     (if s = Float64 \<or> t = Float64 then Float64
      else if s = Float32 \<or> t = Float32 then Float32 else UInt8)"

definition store :: "dtype \<Rightarrow> real \<Rightarrow> real" where
  "store t x = (if t = UInt8 then to_uint8 x else x)"

text \<open>\<^verbatim>\<open>a - b\<close>.\<close>

definition np_sub :: "ndarray \<Rightarrow> ndarray \<Rightarrow> exn + ndarray" where
  "np_sub a b =
     (case (broadcast_dim (nrows a) (nrows b), broadcast_dim (ncols a) (ncols b)) of
        (Some R, Some C) \<Rightarrow>
          Inr \<lparr>dtype = promote (dtype a) (dtype b), nrows = R, ncols = C,
               cells = map (store (promote (dtype a) (dtype b)))
                         (map2 (-) (stretch a R C) (stretch b R C))\<rparr>
      | _ \<Rightarrow> Inl ValueError)"

text \<open>
  \<^verbatim>\<open>a += b\<close>: the result has the shape of \<open>a\<close>, to which \<open>b\<close> must
  stretch.  The operands are the floating-point velocity arrays of the averaging loop.
\<close>

definition np_iadd :: "ndarray \<Rightarrow> ndarray \<Rightarrow> exn + ndarray" where
  "np_iadd a b =
     (if (nrows b = nrows a \<or> nrows b = 1) \<and> (ncols b = ncols a \<or> ncols b = 1)
      then Inr (a\<lparr>cells := map2 (+) (cells a) (stretch b (nrows a) (ncols a))\<rparr>)
      else Inl ValueError)"

text \<open>
  An array times a Python float (\<^verbatim>\<open>u * dt\<close>, \<^verbatim>\<open>field * decay_factor\<close>):
  a \<open>float32\<close> array stays \<open>float32\<close>, an integer array becomes
  \<open>float64\<close>.  (\<^verbatim>\<open>decay_factor\<close> is a numpy scalar, with which numpy 2
  promotes a \<open>float32\<close> array to \<open>float64\<close>; the values are the same, and
  \<^verbatim>\<open>advect_field\<close> converts its field with \<^verbatim>\<open>astype(np.float32)\<close>.
  \<^verbatim>\<open>generate_forecast\<close> passes an integer \<open>dt\<close>, always with floating-point
  velocity arrays, for which the product has the same type as with a float.)
\<close>

definition np_mul_scalar :: "ndarray \<Rightarrow> real \<Rightarrow> ndarray" where
  "np_mul_scalar a s =
     a\<lparr>dtype := (if dtype a = Float32 then Float32 else Float64),
       cells := map (\<lambda>x. x * s) (cells a)\<rparr>"

text \<open>
  \<^verbatim>\<open>u_sum / valid_pairs\<close>, for the \<open>float32\<close> sums of the averaging loop.
\<close>

definition np_div_scalar :: "ndarray \<Rightarrow> nat \<Rightarrow> ndarray" where
  "np_div_scalar a n = a\<lparr>dtype := Float32, cells := map (\<lambda>x. x / real n) (cells a)\<rparr>"

text \<open>
  \<^verbatim>\<open>a[mask] *= s\<close> with a Python float \<open>s\<close>: numpy refuses to store the
  floating-point product into an integer array (\<open>UFuncTypeError\<close>, whatever the
  mask selects); in a floating-point array the selected cells are scaled.
\<close>

definition imul_masked :: "ndarray \<Rightarrow> bool list \<Rightarrow> real \<Rightarrow> exn + ndarray" where
  "imul_masked a msk s =
     (if dtype a = UInt8 then Inl UFuncTypeError
      else Inr (a\<lparr>cells := map2 (\<lambda>m x. if m then x * s else x) msk (cells a)\<rparr>))"

text \<open>
  \<^verbatim>\<open>np.mgrid[0:rows, 0:cols].astype(np.float32)\<close>: the row index and the column
  index of every cell, as two \<open>float32\<close> arrays.
\<close>

definition mgrid :: "nat \<Rightarrow> nat \<Rightarrow> ndarray \<times> ndarray" where
  "mgrid rows cols =
     (\<lparr>dtype = Float32, nrows = rows, ncols = cols,
        cells = map (\<lambda>k. real (k div cols)) [0..<rows * cols]\<rparr>,
      \<lparr>dtype = Float32, nrows = rows, ncols = cols,
        cells = map (\<lambda>k. real (k mod cols)) [0..<rows * cols]\<rparr>)"

section \<open>Library functions\<close>

text \<open>
  \<^verbatim>\<open>cv2.remap(src, map1, map2, cv2.INTER_LINEAR, borderMode=cv2.BORDER_CONSTANT)\<close>.
  The two maps must be non-empty \<open>float32\<close> arrays of one shape, otherwise OpenCV
  raises \<^verbatim>\<open>cv2.error\<close>.  The destination has the shape of the maps; its cell
  \<open>k\<close> is the source sampled at column \<open>xmap[k]\<close>, row \<open>ymap[k]\<close> by
  bilinear interpolation of the four surrounding cells, a cell outside the source counting
  as 0 (the default border value).  The interpolation is taken in exact arithmetic.
\<close>

definition pixel :: "ndarray \<Rightarrow> int \<Rightarrow> int \<Rightarrow> real" where
  "pixel src r c =
     (if 0 \<le> r \<and> r < int (nrows src) \<and> 0 \<le> c \<and> c < int (ncols src)
      then cells src ! (nat r * ncols src + nat c) else 0)"

definition bilinear :: "ndarray \<Rightarrow> real \<Rightarrow> real \<Rightarrow> real" where
  "bilinear src x y =
     (let x0 = \<lfloor>x\<rfloor>; y0 = \<lfloor>y\<rfloor>; fx = x - of_int x0; fy = y - of_int y0
      in (1 - fy) * ((1 - fx) * pixel src y0 x0 + fx * pixel src y0 (x0 + 1))
         + fy * ((1 - fx) * pixel src (y0 + 1) x0 + fx * pixel src (y0 + 1) (x0 + 1)))"

definition cv2_remap :: "ndarray \<Rightarrow> ndarray \<Rightarrow> ndarray \<Rightarrow> exn + ndarray" where
  "cv2_remap src xmap ymap =
     (if shape xmap = shape ymap \<and> 0 < nrows xmap \<and> 0 < ncols xmap \<and>
         dtype xmap = Float32 \<and> dtype ymap = Float32
      then Inr \<lparr>dtype = Float32, nrows = nrows xmap, ncols = ncols xmap,
                cells = map2 (bilinear src) (cells xmap) (cells ymap)\<rparr>
      else Inl (Cv2Error ''remap''))"

text \<open>
  Two library functions are parameters of the model.  The sparse tracker
  \<^verbatim>\<open>cv2.calcOpticalFlowPyrLK(prev, next, pts, None)[0]\<close> takes the two 8-bit frames
  and the anchor points and either raises, or returns \<open>None\<close>, or returns the
  tracked points.  \<^verbatim>\<open>gaussian_filter(a, sigma=2.0)\<close> maps an array to an array
  (of the shape and element type of its argument).
\<close>

type_synonym tracker =
  "ndarray \<Rightarrow> ndarray \<Rightarrow> (real \<times> real) list \<Rightarrow> exn + (real \<times> real) list option"

type_synonym smoother = "ndarray \<Rightarrow> ndarray"

definition shape_preserving :: "smoother \<Rightarrow> bool" where
  "shape_preserving g = (\<forall>a. shape (g a) = shape a \<and> (well_shaped a \<longrightarrow> well_shaped (g a)))"

section \<open>Frames, results and configuration\<close>

text \<open>
  \<^verbatim>\<open>models.py\<close> and the two fields of \<^verbatim>\<open>RadarConfig\<close> the forecaster
  reads.  A timestamp is a \<^verbatim>\<open>datetime\<close>, counted in microseconds (its
  resolution) since \<^verbatim>\<open>datetime.min\<close>, the first instant of year 1; the last
  one, \<^verbatim>\<open>datetime.max\<close>, is the last microsecond of year 9999.  Adding a
  \<^verbatim>\<open>timedelta\<close> that leads outside this range raises
  \<open>OverflowError\<close>.  The fields \<open>timestamp\<close>,
  \<open>data\<close> and \<open>method\<close> of \<^verbatim>\<open>ForecastResult\<close> are called
  \<open>forecast_time\<close>, \<open>forecast_data\<close> and \<open>forecast_method\<close> here,
  apart from the fields of \<^verbatim>\<open>RadarFrame\<close>.
\<close>

record RadarFrame =
  timestamp :: int
  data :: ndarray
  file_path :: string
  processed :: bool

record ForecastResult =
  forecast_time :: int
  forecast_data :: ndarray
  confidence :: real
  forecast_method :: string

record RadarConfig =
  forecast_steps :: int
  forecast_interval_minutes :: int

definition timedelta_minutes :: "int \<Rightarrow> int" where
  "timedelta_minutes m = m * 60000000"

definition datetime_min :: int where
  "datetime_min = 0"

definition datetime_max :: int where
  "datetime_max = 315537897599999999"

definition datetime_add :: "int \<Rightarrow> int \<Rightarrow> exn + int" where
  "datetime_add t delta =
     (if datetime_min \<le> t + delta \<and> t + delta \<le> datetime_max
      then Inr (t + delta) else Inl OverflowError)"

section \<open>The forecaster\<close>

subsection \<open>\<^verbatim>\<open>calculate_optical_flow\<close>\<close>

text \<open>\<^verbatim>\<open>range(0, n, 10)\<close>.\<close>

definition range10 :: "nat \<Rightarrow> nat list" where
  "range10 n = filter (\<lambda>k. k mod 10 = 0) [0..<n]"

text \<open>
  The anchor points handed to the tracker:
  \<^verbatim>\<open>[[x, y] for y in range(0, rows, 10) for x in range(0, cols, 10)]\<close>.
\<close>

definition anchors :: "nat \<Rightarrow> nat \<Rightarrow> (real \<times> real) list" where
  "anchors rows cols =
     concat (map (\<lambda>y. map (\<lambda>x. (real x, real y)) (range10 cols)) (range10 rows))"

text \<open>
  The loop over \<^verbatim>\<open>enumerate(flow.reshape(-1, 2))\<close> that writes the displacements
  into \<open>u\<close> and \<open>v\<close>.  \<^verbatim>\<open>divmod(i, cols // 10)\<close> raises
  \<open>ZeroDivisionError\<close> when the frame has fewer than 10 columns.
\<close>

fun flow_loop ::
  "nat \<Rightarrow> nat \<Rightarrow> (nat \<times> real \<times> real) list \<Rightarrow> ndarray \<times> ndarray \<Rightarrow> exn + ndarray \<times> ndarray"
where
  "flow_loop rows cols [] uv = Inr uv"
| "flow_loop rows cols ((i, x, y) # rest) (u, v) =
     (if cols div 10 = 0 then Inl ZeroDivisionError
      else
        let orig_y = (i div (cols div 10)) * 10;
            orig_x = (i mod (cols div 10)) * 10
        in if orig_y < rows \<and> orig_x < cols
           then flow_loop rows cols rest
                  (setitem u orig_y orig_x (x - real orig_x),
                   setitem v orig_y orig_x (y - real orig_y))
           else flow_loop rows cols rest (u, v))"

text \<open>
  The velocity arrays before smoothing: zero arrays of the frame's shape, then the loop
  when the tracker returned points.
\<close>

definition velocity_field ::
  "ndarray \<Rightarrow> (real \<times> real) list option \<Rightarrow> exn + ndarray \<times> ndarray"
where
  "velocity_field frame1 flow =
     (let u = zeros_like frame1; v = zeros_like frame1
      in case flow of
           None \<Rightarrow> Inr (u, v)
         | Some pts \<Rightarrow> flow_loop (nrows frame1) (ncols frame1) (enumerate 0 pts) (u, v))"

definition optical_flow_try ::
  "tracker \<Rightarrow> smoother \<Rightarrow> ndarray \<Rightarrow> ndarray \<Rightarrow> exn + ndarray \<times> ndarray"
where
  "optical_flow_try pyrLK gaussian_filter frame1 frame2 =
     (let frame1_8bit = astype_uint8 (np_clip frame1 0 255);
          frame2_8bit = astype_uint8 (np_clip frame2 0 255)
      in exn_bind (pyrLK frame1_8bit frame2_8bit (anchors (nrows frame1) (ncols frame1)))
           (\<lambda>flow. exn_bind (velocity_field frame1 flow)
              (\<lambda>(u, v). Inr (gaussian_filter u, gaussian_filter v))))"

definition calculate_optical_flow ::
  "tracker \<Rightarrow> smoother \<Rightarrow> ndarray \<Rightarrow> ndarray \<Rightarrow> exn + ndarray \<times> ndarray"
where
  "calculate_optical_flow pyrLK gaussian_filter frame1 frame2 =
     (case optical_flow_try pyrLK gaussian_filter frame1 frame2 of
        Inr uv \<Rightarrow> Inr uv
      | Inl e \<Rightarrow> Inl (ForecastError ''Optical flow calculation failed: '' (Some e)))"

subsection \<open>\<^verbatim>\<open>advect_field\<close>\<close>

definition advect_try :: "ndarray \<Rightarrow> ndarray \<Rightarrow> ndarray \<Rightarrow> real \<Rightarrow> exn + ndarray" where
  "advect_try field u v dt =
     (let rows = nrows field; cols = ncols field;
          (y_coords, x_coords) = mgrid rows cols
      in exn_bind (np_sub x_coords (np_mul_scalar u dt)) (\<lambda>x_back.
         exn_bind (np_sub y_coords (np_mul_scalar v dt)) (\<lambda>y_back.
           cv2_remap (astype_float32 field)
             (np_clip x_back 0 (of_int (int cols - 1)))
             (np_clip y_back 0 (of_int (int rows - 1))))))"

definition advect_field :: "ndarray \<Rightarrow> ndarray \<Rightarrow> ndarray \<Rightarrow> real \<Rightarrow> exn + ndarray" where
  "advect_field field u v dt =
     (case advect_try field u v dt of
        Inr advected \<Rightarrow> Inr advected
      | Inl e \<Rightarrow> Inl (ForecastError ''Field advection failed: '' (Some e)))"

subsection \<open>\<^verbatim>\<open>apply_precipitation_decay\<close> and \<^verbatim>\<open>apply_growth_decay_model\<close>\<close>

definition apply_precipitation_decay :: "ndarray \<Rightarrow> real \<Rightarrow> real \<Rightarrow> ndarray" where
  "apply_precipitation_decay field dt decay_rate =
     (let decay_factor = exp (- decay_rate * dt / 3600)
      in np_mul_scalar field decay_factor)"

definition growth_decay_try :: "ndarray \<Rightarrow> real \<Rightarrow> exn + ndarray" where
  "growth_decay_try field dt =
     (let growth_mask = map (\<lambda>x. 80 < x \<and> x < 150) (cells field);
          decay_mask = map (\<lambda>x. 180 < x) (cells field);
          result = field
      in exn_bind (imul_masked result growth_mask (1 + 5 / 100 * dt / 3600)) (\<lambda>result.
         exn_bind (imul_masked result decay_mask (1 - 15 / 100 * dt / 3600)) (\<lambda>result.
           Inr (np_clip (apply_precipitation_decay result dt (1 / 10)) 0 255))))"

definition apply_growth_decay_model :: "ndarray \<Rightarrow> real \<Rightarrow> ndarray" where
  "apply_growth_decay_model field dt =
     (case growth_decay_try field dt of
        Inr result \<Rightarrow> result
      | Inl e \<Rightarrow> field)"

subsection \<open>\<^verbatim>\<open>calculate_average_velocity\<close>\<close>

text \<open>
  One pass of the loop over the consecutive pairs.  The state is \<open>u_sum, v_sum\<close>
  (\<open>None\<close> until the first pair succeeds) and \<open>valid_pairs\<close>.  Whatever is
  raised inside the \<^verbatim>\<open>try\<close> skips the rest of the pass.
\<close>

definition velocity_step ::
  "tracker \<Rightarrow> smoother \<Rightarrow> (ndarray \<times> ndarray) option \<times> nat \<Rightarrow> ndarray \<times> ndarray
     \<Rightarrow> (ndarray \<times> ndarray) option \<times> nat"
where
  "velocity_step pyrLK gaussian_filter st pair =
     (case calculate_optical_flow pyrLK gaussian_filter (fst pair) (snd pair) of
        Inl e \<Rightarrow> st
      | Inr (u, v) \<Rightarrow>
          (case fst st of
             None \<Rightarrow> (Some (u, v), snd st + 1)
           | Some (u_sum, v_sum) \<Rightarrow>
               (case np_iadd u_sum u of
                  Inl e \<Rightarrow> st
                | Inr u_sum' \<Rightarrow>
                    (case np_iadd v_sum v of
                       Inl e \<Rightarrow> (Some (u_sum', v_sum), snd st)
                     | Inr v_sum' \<Rightarrow> (Some (u_sum', v_sum'), snd st + 1)))))"

text \<open>The pairs \<open>(frames[i].data, frames[i + 1].data)\<close> for \<open>i\<close> in \<open>range(len(frames) - 1)\<close>.\<close>

definition consecutive_pairs :: "RadarFrame list \<Rightarrow> (ndarray \<times> ndarray) list" where
  "consecutive_pairs frames = zip (map data (butlast frames)) (map data (tl frames))"

definition calculate_average_velocity ::
  "tracker \<Rightarrow> smoother \<Rightarrow> RadarFrame list \<Rightarrow> exn + ndarray \<times> ndarray"
where
  "calculate_average_velocity pyrLK gaussian_filter frames =
     (if length frames < 2
      then Inl (ForecastError ''Need at least 2 frames to calculate velocity'' None)
      else
        let (acc, valid_pairs) =
              foldl (velocity_step pyrLK gaussian_filter) (None, 0) (consecutive_pairs frames)
        in if valid_pairs = 0
           then Inl (ForecastError ''No valid frame pairs for velocity calculation'' None)
           else (case acc of
                   None \<Rightarrow> Inl TypeError
                 | Some (u_sum, v_sum) \<Rightarrow>
                     Inr (np_div_scalar u_sum valid_pairs, np_div_scalar v_sum valid_pairs)))"

subsection \<open>\<^verbatim>\<open>generate_forecast\<close>\<close>

text \<open>
  The loop over \<^verbatim>\<open>range(1, forecast_steps + 1)\<close>.  The state is the working field
  and the list of results so far.
\<close>

fun forecast_loop ::
  "RadarConfig \<Rightarrow> ndarray \<Rightarrow> ndarray \<Rightarrow> real \<Rightarrow> int \<Rightarrow> int list
     \<Rightarrow> ndarray \<times> ForecastResult list \<Rightarrow> exn + ndarray \<times> ForecastResult list"
where
  "forecast_loop config u_avg v_avg dt current_time [] st = Inr st"
| "forecast_loop config u_avg v_avg dt current_time (step # steps) (current_field, forecasts) =
     exn_bind (advect_field current_field u_avg v_avg dt) (\<lambda>advected.
       let current_field = apply_growth_decay_model advected dt;
           confidence = max (1 / 10) (1 - of_int step * (15 / 100))
       in exn_bind
            (datetime_add current_time
               (timedelta_minutes (step * forecast_interval_minutes config)))
            (\<lambda>forecast_time.
               let forecast_result =
                     \<lparr>forecast_time = forecast_time,
                      forecast_data = astype_uint8 current_field,
                      confidence = confidence,
                      forecast_method = ''fluid_dynamics''\<rparr>
               in forecast_loop config u_avg v_avg dt current_time steps
                    (current_field, forecasts @ [forecast_result])))"

definition forecast_try ::
  "RadarConfig \<Rightarrow> tracker \<Rightarrow> smoother \<Rightarrow> RadarFrame list \<Rightarrow> exn + ForecastResult list"
where
  "forecast_try config pyrLK gaussian_filter frames =
     (let recent_frames = drop (length frames - min 10 (length frames)) frames
      in exn_bind (calculate_average_velocity pyrLK gaussian_filter recent_frames)
           (\<lambda>(u_avg, v_avg).
              let current_field = astype_float32 (data (last recent_frames));
                  current_time = timestamp (last recent_frames);
                  dt = of_int (forecast_interval_minutes config * 60)
              in exn_bind
                   (forecast_loop config u_avg v_avg dt current_time
                      [1..forecast_steps config] (current_field, []))
                   (\<lambda>(current_field, forecasts). Inr forecasts)))"

definition generate_forecast ::
  "RadarConfig \<Rightarrow> tracker \<Rightarrow> smoother \<Rightarrow> RadarFrame list \<Rightarrow> exn + ForecastResult list"
where
  "generate_forecast config pyrLK gaussian_filter frames =
     (if length frames < 3
      then Inl (ForecastError ''Need at least 3 frames for forecasting'' None)
      else
        (case forecast_try config pyrLK gaussian_filter frames of
           Inr forecasts \<Rightarrow> Inr forecasts
         | Inl e \<Rightarrow> Inl (ForecastError ''Forecast generation failed: '' (Some e))))"

section \<open>Notions of the statements\<close>

text \<open>
  The velocity fields of the consecutive pairs whose motion estimation succeeds, in the
  order of the pairs.
\<close>

definition successful_flows ::
  "tracker \<Rightarrow> smoother \<Rightarrow> (ndarray \<times> ndarray) list \<Rightarrow> (ndarray \<times> ndarray) list"
where
  "successful_flows pyrLK gaussian_filter pairs =
     concat (map (\<lambda>p. case calculate_optical_flow pyrLK gaussian_filter (fst p) (snd p) of
                         Inl e \<Rightarrow> [] | Inr uv \<Rightarrow> [uv]) pairs)"

text \<open>
  The element-wise mean of a non-empty list of arrays of one shape: in every cell, the
  sum of the arrays' values divided by the number of arrays.
\<close>

definition mean_array :: "ndarray list \<Rightarrow> ndarray" where
  "mean_array as =
     \<lparr>dtype = Float32, nrows = nrows (hd as), ncols = ncols (hd as),
      cells = map (\<lambda>k. (\<Sum>a\<leftarrow>as. cells a ! k) / real (length as))
                [0..<nrows (hd as) * ncols (hd as)]\<rparr>"

text \<open>
  The working field of \<^verbatim>\<open>generate_forecast\<close> after \<open>k\<close> passes of its
  loop: the seed field advected and evolved \<open>k\<close> times.
\<close>

fun working_field :: "ndarray \<Rightarrow> ndarray \<Rightarrow> real \<Rightarrow> ndarray \<Rightarrow> nat \<Rightarrow> exn + ndarray" where
  "working_field u_avg v_avg dt seed 0 = Inr seed"
| "working_field u_avg v_avg dt seed (Suc k) =
     exn_bind (working_field u_avg v_avg dt seed k) (\<lambda>current_field.
     exn_bind (advect_field current_field u_avg v_avg dt) (\<lambda>advected.
       Inr (apply_growth_decay_model advected dt)))"

text \<open>\<open>scale_where sel s y\<close>: the value \<open>y\<close>, scaled by \<open>s\<close> when the cell is selected.\<close>

definition scale_where :: "bool \<Rightarrow> real \<Rightarrow> real \<Rightarrow> real" where
  "scale_where sel s y = (if sel then y * s else y)"

text \<open>
  The evolution model as the specification words it: three effects in order, each one
  selecting and scaling the cells of the field that the previous effect produced, then
  the clamp.
\<close>

definition evolve_sequential :: "ndarray \<Rightarrow> real \<Rightarrow> ndarray" where
  "evolve_sequential field dt =
     (let grown = map (\<lambda>x. if 80 < x \<and> x < 150 then x * (1 + 5 / 100 * dt / 3600) else x)
                    (cells field);
          decayed = map (\<lambda>x. if 180 < x then x * (1 - 15 / 100 * dt / 3600) else x) grown;
          weakened = map (\<lambda>x. x * exp (- (1 / 10) * dt / 3600)) decayed
      in field\<lparr>dtype := Float32, cells := map (\<lambda>x. clip x 0 255) weakened\<rparr>)"

section \<open>Invariants of the loops\<close>

text \<open>
  The state of the averaging loop is sound for a shape when either nothing was summed and
  the count is zero, or the sums are well-shaped arrays of that shape and the count is
  positive.
\<close>

fun sums_sound :: "nat \<times> nat \<Rightarrow> (ndarray \<times> ndarray) option \<times> nat \<Rightarrow> bool" where
  "sums_sound s (None, n) = (n = 0)"
| "sums_sound s (Some (us, vs), n) =
     (0 < n \<and> shape us = s \<and> shape vs = s \<and> well_shaped us \<and> well_shaped vs)"

text \<open>The running sum of the loop: \<open>a\<close>, then \<open>+=\<close> each array of \<open>bs\<close>.\<close>

definition sum_arrays :: "ndarray \<Rightarrow> ndarray list \<Rightarrow> ndarray" where
  "sum_arrays a bs = foldl (\<lambda>a b. a\<lparr>cells := map2 (+) (cells a) (cells b)\<rparr>) a bs"

section \<open>Concrete inputs\<close>

text \<open>
  Inputs on which the theorems below are instantiated: a tracker that finds every anchor
  where it was, a tracker that always raises, a smoother that changes nothing, a blank
  8-bit frame, a buffer of ten of them ten minutes apart, such a buffer ending five minutes
  before \<^verbatim>\<open>datetime.max\<close>, the default configuration of
  \<^verbatim>\<open>config.py\<close>, two small arrays and an empty one.
\<close>

definition still_tracker :: tracker where
  "still_tracker prev nxt pts = Inr (Some pts)"

definition failing_tracker :: tracker where
  "failing_tracker prev nxt pts = Inl (Cv2Error ''calcOpticalFlowPyrLK'')"

definition no_smoothing :: smoother where
  "no_smoothing a = a"

definition blank_frame :: "nat \<Rightarrow> nat \<Rightarrow> int \<Rightarrow> RadarFrame" where
  "blank_frame rows cols t =
     \<lparr>timestamp = t,
      data = \<lparr>dtype = UInt8, nrows = rows, ncols = cols, cells = replicate (rows * cols) 0\<rparr>,
      file_path = [], processed = False\<rparr>"

definition default_config :: RadarConfig where
  "default_config = \<lparr>forecast_steps = 6, forecast_interval_minutes = 10\<rparr>"

definition ten_blank_frames :: "RadarFrame list" where
  "ten_blank_frames =
     [blank_frame 1 10 0, blank_frame 1 10 600000000, blank_frame 1 10 1200000000,
      blank_frame 1 10 1800000000, blank_frame 1 10 2400000000, blank_frame 1 10 3000000000,
      blank_frame 1 10 3600000000, blank_frame 1 10 4200000000, blank_frame 1 10 4800000000,
      blank_frame 1 10 5400000000]"

definition one_cell :: "dtype \<Rightarrow> real \<Rightarrow> ndarray" where
  "one_cell t x = \<lparr>dtype = t, nrows = 1, ncols = 1, cells = [x]\<rparr>"

definition two_cells :: "real \<Rightarrow> real \<Rightarrow> ndarray" where
  "two_cells a b = \<lparr>dtype = Float32, nrows = 1, ncols = 2, cells = [a, b]\<rparr>"

definition late_blank_frames :: "RadarFrame list" where
  "late_blank_frames =
     map (\<lambda>f. f\<lparr>timestamp := timestamp f + 315537891900000000\<rparr>) ten_blank_frames"

definition empty_field :: ndarray where
  "empty_field = \<lparr>dtype = Float32, nrows = 0, ncols = 0, cells = []\<rparr>"

section \<open>Properties\<close>

lemma exn_bind_simps:
  "exn_bind (Inl e) f = Inl e" "exn_bind (Inr x) f = f x"
  by (simp_all add: exn_bind_def)

lemma generate_forecast_cases:
  "3 \<le> length frames \<Longrightarrow>
     (\<exists>rs. generate_forecast config pyrLK gf frames = Inr rs) \<or>
     (\<exists>e. generate_forecast config pyrLK gf frames =
            Inl (ForecastError ''Forecast generation failed: '' (Some e)))"
  by (cases "forecast_try config pyrLK gf frames") (auto simp: generate_forecast_def)

lemma calculate_average_velocity_cases:
  "2 \<le> length frames \<Longrightarrow>
     (\<exists>uv. calculate_average_velocity pyrLK gf frames = Inr uv) \<or>
     calculate_average_velocity pyrLK gf frames =
       Inl (ForecastError ''No valid frame pairs for velocity calculation'' None) \<or>
     calculate_average_velocity pyrLK gf frames = Inl TypeError"
  by (auto simp: calculate_average_velocity_def Let_def split: prod.splits option.splits)
subsection \<open>Claim C4: the minimum frame counts\<close>

text \<open>
  C4, as amended.  With fewer than 3 frames \<open>generate_forecast\<close> raises
  \<open>ForecastError\<close> ("Need at least 3 frames for forecasting"); with fewer than 2
  frames \<open>calculate_average_velocity\<close> raises \<open>ForecastError\<close> ("Need at
  least 2 frames to calculate velocity"), the only exception class the forecaster has;
  with at least 3, respectively 2, frames neither function fails with its floor check.
\<close>

theorem frame_floor_checks:
  "(length frames < 3 \<longrightarrow>
      generate_forecast config pyrLK gf frames =
        Inl (ForecastError ''Need at least 3 frames for forecasting'' None)) \<and>
   (length frames < 2 \<longrightarrow>
      calculate_average_velocity pyrLK gf frames =
        Inl (ForecastError ''Need at least 2 frames to calculate velocity'' None)) \<and>
   (3 \<le> length frames \<longrightarrow>
      generate_forecast config pyrLK gf frames \<noteq>
        Inl (ForecastError ''Need at least 3 frames for forecasting'' None)) \<and>
   (2 \<le> length frames \<longrightarrow>
      calculate_average_velocity pyrLK gf frames \<noteq>
        Inl (ForecastError ''Need at least 2 frames to calculate velocity'' None))"
proof (intro conjI impI)
  assume "length frames < 3"
  then show "generate_forecast config pyrLK gf frames =
        Inl (ForecastError ''Need at least 3 frames for forecasting'' None)"
    by (simp add: generate_forecast_def)
next
  assume "length frames < 2"
  then show "calculate_average_velocity pyrLK gf frames =
        Inl (ForecastError ''Need at least 2 frames to calculate velocity'' None)"
    by (simp add: calculate_average_velocity_def)
next
  assume "3 \<le> length frames"
  from generate_forecast_cases [OF this, of config pyrLK gf]
  show "generate_forecast config pyrLK gf frames \<noteq>
        Inl (ForecastError ''Need at least 3 frames for forecasting'' None)"
    by auto
next
  assume "2 \<le> length frames"
  from calculate_average_velocity_cases [OF this, of pyrLK gf]
  show "calculate_average_velocity pyrLK gf frames \<noteq>
        Inl (ForecastError ''Need at least 2 frames to calculate velocity'' None)"
    by auto
qed

text \<open>
  C4 as stated fails: on a single frame the aggregator raises \<open>ForecastError\<close>,
  not \<open>InsufficientDataError\<close>.
\<close>

theorem aggregator_floor_counterexample:
  "calculate_average_velocity still_tracker no_smoothing [blank_frame 1 10 0] =
     Inl (ForecastError ''Need at least 2 frames to calculate velocity'' None) \<and>
   calculate_average_velocity still_tracker no_smoothing [blank_frame 1 10 0] \<noteq>
     Inl InsufficientDataError"
  by (simp add: calculate_average_velocity_def)

theorem frame_floor_checks_witness:
  "generate_forecast default_config still_tracker no_smoothing [] =
     Inl (ForecastError ''Need at least 3 frames for forecasting'' None) \<and>
   calculate_average_velocity still_tracker no_smoothing [] =
     Inl (ForecastError ''Need at least 2 frames to calculate velocity'' None) \<and>
   generate_forecast default_config still_tracker no_smoothing
       [blank_frame 1 10 0, blank_frame 1 10 1, blank_frame 1 10 2] \<noteq>
     Inl (ForecastError ''Need at least 3 frames for forecasting'' None) \<and>
   calculate_average_velocity still_tracker no_smoothing
       [blank_frame 1 10 0, blank_frame 1 10 1] \<noteq>
     Inl (ForecastError ''Need at least 2 frames to calculate velocity'' None)"
  using frame_floor_checks [of "[]" default_config still_tracker no_smoothing]
    frame_floor_checks [of "[blank_frame 1 10 0, blank_frame 1 10 1, blank_frame 1 10 2]"
      default_config still_tracker no_smoothing]
    frame_floor_checks [of "[blank_frame 1 10 0, blank_frame 1 10 1]"
      default_config still_tracker no_smoothing]
  by simp
subsection \<open>Shapes and broadcasting\<close>

lemma shape_simps [simp]:
  "shape (astype_float32 a) = shape a"
  "shape (astype_uint8 a) = shape a"
  "shape (np_clip a lo hi) = shape a"
  "shape (np_mul_scalar a s) = shape a"
  "shape (np_div_scalar a n) = shape a"
  "shape (zeros_like a) = shape a"
  "shape (setitem a r c x) = shape a"
  "shape (apply_precipitation_decay a dt k) = shape a"
  "shape (fst (mgrid rows cols)) = (rows, cols)"
  "shape (snd (mgrid rows cols)) = (rows, cols)"
  by (simp_all add: shape_def astype_float32_def astype_uint8_def np_clip_def
      np_mul_scalar_def np_div_scalar_def zeros_like_def setitem_def
      apply_precipitation_decay_def mgrid_def)

lemma shape_eq_iff: "shape a = shape b \<longleftrightarrow> nrows a = nrows b \<and> ncols a = ncols b"
  by (simp add: shape_def)

lemma well_shaped_simps [simp]:
  "well_shaped (astype_float32 a) = well_shaped a"
  "well_shaped (astype_uint8 a) = well_shaped a"
  "well_shaped (np_clip a lo hi) = well_shaped a"
  "well_shaped (np_mul_scalar a s) = well_shaped a"
  "well_shaped (np_div_scalar a n) = well_shaped a"
  "well_shaped (zeros_like a)"
  "well_shaped (setitem a r c x) = well_shaped a"
  "well_shaped (apply_precipitation_decay a dt k) = well_shaped a"
  "well_shaped (fst (mgrid rows cols))"
  "well_shaped (snd (mgrid rows cols))"
  by (simp_all add: well_shaped_def astype_float32_def astype_uint8_def np_clip_def
      np_mul_scalar_def np_div_scalar_def zeros_like_def setitem_def
      apply_precipitation_decay_def mgrid_def)

lemma length_stretch [simp]: "length (stretch a R C) = R * C"
  by (simp add: stretch_def)

lemma stretch_index:
  fixes k R C :: nat
  assumes "k < R * C"
  shows "(if R = 1 then 0 else k div C) * C + (if C = 1 then 0 else k mod C) = k"
proof (cases "R = 1")
  case True
  from assms have "k < C" unfolding True by simp
  then show ?thesis using True by (cases "C = 1") simp_all
next
  case False
  then show ?thesis by (cases "C = 1") simp_all
qed

lemma stretch_same:
  assumes "well_shaped a"
  shows "stretch a (nrows a) (ncols a) = cells a"
proof (rule nth_equalityI)
  show "length (stretch a (nrows a) (ncols a)) = length (cells a)"
    using assms by (simp add: well_shaped_def)
next
  fix k assume "k < length (stretch a (nrows a) (ncols a))"
  then have lt: "k < nrows a * ncols a" by simp
  then have "stretch a (nrows a) (ncols a) ! k =
      cells a ! ((if nrows a = 1 then 0 else k div ncols a) * ncols a
                 + (if ncols a = 1 then 0 else k mod ncols a))"
    by (simp only: stretch_def nth_map length_upt diff_zero nth_upt add_0)
  also have "\<dots> = cells a ! k" by (simp only: stretch_index [OF lt])
  finally show "stretch a (nrows a) (ncols a) ! k = cells a ! k" .
qed

lemma broadcast_dim_same [simp]: "broadcast_dim m m = Some m"
  by (simp add: broadcast_dim_def)

lemma broadcast_dim_positive:
  "broadcast_dim m n = Some R \<Longrightarrow> 0 < R \<Longrightarrow> 0 < m"
  by (auto simp: broadcast_dim_def split: if_splits)

lemma store_float [simp]: "store Float32 x = x" "store Float64 x = x"
  by (simp_all add: store_def)

lemma np_sub_Inr:
  assumes "np_sub a b = Inr c"
  shows "broadcast_dim (nrows a) (nrows b) = Some (nrows c) \<and>
         broadcast_dim (ncols a) (ncols b) = Some (ncols c) \<and>
         dtype c = promote (dtype a) (dtype b) \<and> well_shaped c"
  using assms
  by (auto simp: np_sub_def well_shaped_def split: option.splits)

lemma np_sub_same_shape:
  assumes "shape a = shape b" "well_shaped a" "well_shaped b"
  shows "np_sub a b =
     Inr \<lparr>dtype = promote (dtype a) (dtype b), nrows = nrows a, ncols = ncols a,
          cells = map (store (promote (dtype a) (dtype b))) (map2 (-) (cells a) (cells b))\<rparr>"
proof -
  from assms(1) have "nrows b = nrows a" "ncols b = ncols a" by (simp_all add: shape_def)
  with stretch_same [OF assms(2)] stretch_same [OF assms(3)] show ?thesis
    by (simp add: np_sub_def)
qed

lemma np_iadd_same_shape:
  assumes "shape a = shape b" "well_shaped b"
  shows "np_iadd a b = Inr (a\<lparr>cells := map2 (+) (cells a) (cells b)\<rparr>)"
proof -
  from assms(1) have "nrows b = nrows a" "ncols b = ncols a" by (simp_all add: shape_def)
  with stretch_same [OF assms(2)] show ?thesis by (simp add: np_iadd_def)
qed

subsection \<open>What \<^verbatim>\<open>advect_field\<close> returns\<close>

lemma advect_field_try:
  "advect_field field u v dt = Inr adv \<longleftrightarrow> advect_try field u v dt = Inr adv"
  by (simp add: advect_field_def split: sum.splits)

text \<open>
  Whenever \<open>advect_field\<close> returns, the field is not empty, the result is a
  well-shaped \<open>float32\<close> array, and each of its cells is the field sampled at a point
  whose coordinates were clipped into the grid.
\<close>

lemma advect_field_cells:
  assumes "advect_field field u v dt = Inr adv"
  shows "0 < nrows field \<and> 0 < ncols field \<and> well_shaped adv \<and> dtype adv = Float32 \<and>
         (\<forall>c \<in> set (cells adv). \<exists>x y.
            c = bilinear (astype_float32 field)
                  (clip x 0 (real (ncols field) - 1)) (clip y 0 (real (nrows field) - 1)))"
proof -
  let ?xc = "snd (mgrid (nrows field) (ncols field))"
  let ?yc = "fst (mgrid (nrows field) (ncols field))"
  from assms have tr: "advect_try field u v dt = Inr adv" by (simp add: advect_field_try)
  then obtain xb yb where
    xb: "np_sub ?xc (np_mul_scalar u dt) = Inr xb"
    and yb: "np_sub ?yc (np_mul_scalar v dt) = Inr yb"
    and remap: "cv2_remap (astype_float32 field)
                  (np_clip xb 0 (real (ncols field) - 1))
                  (np_clip yb 0 (real (nrows field) - 1)) = Inr adv"
    by (auto simp: advect_try_def exn_bind_def Let_def case_prod_beta split: sum.splits)
  from remap have ok: "shape xb = shape yb" "0 < nrows xb" "0 < ncols xb"
    and adv: "adv = \<lparr>dtype = Float32, nrows = nrows xb, ncols = ncols xb,
        cells = map2 (bilinear (astype_float32 field))
                  (map (\<lambda>x. clip x 0 (real (ncols field) - 1)) (cells xb))
                  (map (\<lambda>y. clip y 0 (real (nrows field) - 1)) (cells yb))\<rparr>"
    by (auto simp: cv2_remap_def np_clip_def shape_def split: if_splits)
  from np_sub_Inr [OF xb] have
    dims: "broadcast_dim (nrows field) (nrows u) = Some (nrows xb)"
      "broadcast_dim (ncols field) (ncols u) = Some (ncols xb)"
    and wx: "well_shaped xb"
    by (simp_all add: mgrid_def np_mul_scalar_def)
  from np_sub_Inr [OF yb] have wy: "well_shaped yb" by simp
  from broadcast_dim_positive [OF dims(1) ok(2)] broadcast_dim_positive [OF dims(2) ok(3)]
  have pos: "0 < nrows field" "0 < ncols field" .
  have wf: "well_shaped adv"
    using wx wy ok(1) by (simp add: adv well_shaped_def shape_def)
  have "\<exists>x y. c = bilinear (astype_float32 field)
                  (clip x 0 (real (ncols field) - 1)) (clip y 0 (real (nrows field) - 1))"
    if "c \<in> set (cells adv)" for c
  proof -
    from that obtain i where "i < length (cells adv)" "c = cells adv ! i"
      by (auto simp: in_set_conv_nth)
    then show ?thesis unfolding adv by auto
  qed
  with pos wf show ?thesis by (simp add: adv)
qed

text \<open>
  On a non-empty field, with \<open>float32\<close> velocity arrays of the field's shape,
  \<open>advect_field\<close> returns.
\<close>

lemma advect_field_Inr:
  assumes "shape u = shape field" "shape v = shape field"
    and "dtype u = Float32" "dtype v = Float32"
    and "0 < nrows field" "0 < ncols field"
  shows "\<exists>adv. advect_field field u v dt = Inr adv \<and> shape adv = shape field"
proof -
  let ?xc = "snd (mgrid (nrows field) (ncols field))"
  let ?yc = "fst (mgrid (nrows field) (ncols field))"
  from assms(1,2) have dims: "nrows u = nrows field" "ncols u = ncols field"
    "nrows v = nrows field" "ncols v = ncols field" by (simp_all add: shape_def)
  have "\<exists>xb. np_sub ?xc (np_mul_scalar u dt) = Inr xb \<and> shape xb = shape field \<and>
          dtype xb = Float32"
    using dims assms(3)
    by (simp add: np_sub_def mgrid_def np_mul_scalar_def shape_def promote_def)
  then obtain xb where xb: "np_sub ?xc (np_mul_scalar u dt) = Inr xb"
    "shape xb = shape field" "dtype xb = Float32" by blast
  have "\<exists>yb. np_sub ?yc (np_mul_scalar v dt) = Inr yb \<and> shape yb = shape field \<and>
          dtype yb = Float32"
    using dims assms(4)
    by (simp add: np_sub_def mgrid_def np_mul_scalar_def shape_def promote_def)
  then obtain yb where yb: "np_sub ?yc (np_mul_scalar v dt) = Inr yb"
    "shape yb = shape field" "dtype yb = Float32" by blast
  have "\<exists>adv. cv2_remap (astype_float32 field)
                  (np_clip xb 0 (real (ncols field) - 1))
                  (np_clip yb 0 (real (nrows field) - 1)) = Inr adv \<and> shape adv = shape field"
    using xb(2,3) yb(2,3) assms(5,6)
    by (simp add: cv2_remap_def np_clip_def shape_def)
  with xb(1) yb(1) show ?thesis
    by (simp add: advect_field_try advect_try_def exn_bind_def Let_def case_prod_beta)
qed

lemma growth_decay_try_shape:
  "growth_decay_try field dt = Inr r \<Longrightarrow> shape r = shape field"
  by (auto simp: growth_decay_try_def imul_masked_def exn_bind_def Let_def shape_def
      np_clip_def apply_precipitation_decay_def np_mul_scalar_def split: if_splits)

lemma apply_growth_decay_model_shape [simp]:
  "shape (apply_growth_decay_model field dt) = shape field"
  by (auto simp: apply_growth_decay_model_def growth_decay_try_shape split: sum.splits)

subsection \<open>The velocity estimate\<close>

lemma flow_loop_shape:
  "flow_loop rows cols pts (u, v) = Inr (u', v') \<Longrightarrow>
     shape u' = shape u \<and> shape v' = shape v \<and>
     (well_shaped u \<longrightarrow> well_shaped u') \<and> (well_shaped v \<longrightarrow> well_shaped v')"
proof (induction pts arbitrary: u v)
  case Nil
  then show ?case by simp
next
  case (Cons p pts)
  obtain i x y where p: "p = (i, x, y)" by (cases p) auto
  show ?case
  proof (cases "(i div (cols div 10)) * 10 < rows \<and> (i mod (cols div 10)) * 10 < cols")
    case True
    with Cons.prems p have
      "flow_loop rows cols pts
         (setitem u ((i div (cols div 10)) * 10) ((i mod (cols div 10)) * 10)
            (x - real ((i mod (cols div 10)) * 10)),
          setitem v ((i div (cols div 10)) * 10) ((i mod (cols div 10)) * 10)
            (y - real ((i div (cols div 10)) * 10))) = Inr (u', v')"
      by (simp add: Let_def split: if_splits)
    from Cons.IH [OF this] show ?thesis by simp
  next
    case False
    with Cons.prems p have "flow_loop rows cols pts (u, v) = Inr (u', v')"
      by (simp add: Let_def split: if_splits)
    from Cons.IH [OF this] show ?thesis .
  qed
qed

lemma velocity_field_shape:
  assumes "velocity_field frame1 flow = Inr (u, v)"
  shows "shape u = shape frame1 \<and> shape v = shape frame1 \<and> well_shaped u \<and> well_shaped v"
proof (cases flow)
  case None
  with assms show ?thesis by (auto simp: velocity_field_def Let_def)
next
  case (Some pts)
  with assms have
    "flow_loop (nrows frame1) (ncols frame1) (enumerate 0 pts)
       (zeros_like frame1, zeros_like frame1) = Inr (u, v)"
    by (simp add: velocity_field_def Let_def)
  from flow_loop_shape [OF this] show ?thesis by simp
qed

lemma calculate_optical_flow_shape:
  assumes "shape_preserving gf"
    and "calculate_optical_flow pyrLK gf frame1 frame2 = Inr (u, v)"
  shows "shape u = shape frame1 \<and> shape v = shape frame1 \<and> well_shaped u \<and> well_shaped v"
proof -
  from assms(2) have "optical_flow_try pyrLK gf frame1 frame2 = Inr (u, v)"
    by (simp add: calculate_optical_flow_def split: sum.splits)
  then obtain u0 v0 where uv0: "velocity_field frame1 u0 = Inr v0" "u = gf (fst v0)" "v = gf (snd v0)"
    by (auto simp: optical_flow_try_def Let_def exn_bind_def split: sum.splits prod.splits)
  from velocity_field_shape [of frame1 u0 "fst v0" "snd v0"] uv0(1)
  have "shape (fst v0) = shape frame1 \<and> shape (snd v0) = shape frame1 \<and>
        well_shaped (fst v0) \<and> well_shaped (snd v0)" by simp
  with assms(1) uv0 show ?thesis by (simp add: shape_preserving_def)
qed

lemma velocity_step_sound:
  assumes gf: "shape_preserving gf"
    and pair: "shape (fst pair) = s"
    and st: "sums_sound s st"
  shows "sums_sound s (velocity_step pyrLK gf st pair)"
proof (cases "calculate_optical_flow pyrLK gf (fst pair) (snd pair)")
  case (Inl e)
  with st show ?thesis by (simp add: velocity_step_def)
next
  case (Inr uv)
  obtain u v where uv: "uv = (u, v)" by (cases uv) auto
  from calculate_optical_flow_shape [OF gf, of pyrLK "fst pair" "snd pair" u v] Inr uv pair
  have sh: "shape u = s" "shape v = s" "well_shaped u" "well_shaped v" by simp_all
  obtain acc n where stp: "st = (acc, n)" by (cases st) auto
  show ?thesis
  proof (cases acc)
    case None
    with Inr uv sh stp show ?thesis by (simp add: velocity_step_def)
  next
    case (Some p)
    obtain us vs where p: "p = (us, vs)" by (cases p) auto
    from st Some p stp have us: "0 < n" "shape us = s" "shape vs = s"
      "well_shaped us" "well_shaped vs" by simp_all
    have "np_iadd us u = Inr (us\<lparr>cells := map2 (+) (cells us) (cells u)\<rparr>)"
      "np_iadd vs v = Inr (vs\<lparr>cells := map2 (+) (cells vs) (cells v)\<rparr>)"
      using us sh by (simp_all add: np_iadd_same_shape)
    with Inr uv Some p stp us sh show ?thesis
      by (auto simp: velocity_step_def shape_def well_shaped_def)
  qed
qed

lemma velocity_loop_sound:
  assumes gf: "shape_preserving gf"
    and pairs: "\<forall>p \<in> set pairs. shape (fst p) = s"
    and st: "sums_sound s st"
  shows "sums_sound s (foldl (velocity_step pyrLK gf) st pairs)"
  using pairs st
proof (induction pairs arbitrary: st)
  case Nil
  then show ?case by simp
next
  case (Cons p pairs)
  from Cons.prems have "shape (fst p) = s" by simp
  from velocity_step_sound [OF gf this Cons.prems(2), of pyrLK]
  have "sums_sound s (velocity_step pyrLK gf st p)" .
  moreover from Cons.prems have "\<forall>p \<in> set pairs. shape (fst p) = s" by simp
  ultimately show ?case using Cons.IH by simp
qed

lemma velocity_step_counts:
  "snd st \<le> snd (velocity_step pyrLK gf st pair)"
  by (auto simp: velocity_step_def split: sum.splits option.splits prod.splits)

lemma velocity_loop_counts:
  "snd st \<le> snd (foldl (velocity_step pyrLK gf) st pairs)"
proof (induction pairs arbitrary: st)
  case Nil
  show ?case by simp
next
  case (Cons p pairs)
  from velocity_step_counts [of st pyrLK gf p] Cons.IH [of "velocity_step pyrLK gf st p"]
  show ?case by simp
qed

lemma velocity_step_success:
  assumes "sums_sound s st"
    and "calculate_optical_flow pyrLK gf (fst pair) (snd pair) = Inr uv"
  shows "0 < snd (velocity_step pyrLK gf st pair)"
proof -
  obtain acc n where stp: "st = (acc, n)" by (cases st) auto
  show ?thesis
  proof (cases acc)
    case None
    with assms stp show ?thesis by (auto simp: velocity_step_def split: prod.splits)
  next
    case (Some p)
    with assms(1) stp have "0 < n" by (cases p) simp
    with velocity_step_counts [of st pyrLK gf pair] stp show ?thesis by simp
  qed
qed

lemma velocity_loop_success:
  assumes gf: "shape_preserving gf"
    and pairs: "\<forall>p \<in> set pairs. shape (fst p) = s"
    and p: "p \<in> set pairs"
    and ok: "calculate_optical_flow pyrLK gf (fst p) (snd p) = Inr uv"
    and st: "sums_sound s st"
  shows "0 < snd (foldl (velocity_step pyrLK gf) st pairs)"
  using pairs p st
proof (induction pairs arbitrary: st)
  case Nil
  then show ?case by simp
next
  case (Cons q pairs)
  from Cons.prems have q: "shape (fst q) = s" by simp
  from velocity_step_sound [OF gf q Cons.prems(3), of pyrLK]
  have step: "sums_sound s (velocity_step pyrLK gf st q)" .
  show ?case
  proof (cases "p = q")
    case True
    from velocity_step_success [OF Cons.prems(3), of pyrLK gf q uv] ok True
    have "0 < snd (velocity_step pyrLK gf st q)" by simp
    with velocity_loop_counts [of "velocity_step pyrLK gf st q" pyrLK gf pairs]
    show ?thesis by simp
  next
    case False
    with Cons.prems have "p \<in> set pairs" "\<forall>p \<in> set pairs. shape (fst p) = s" by simp_all
    from Cons.IH [OF this(2) this(1) step] show ?thesis by simp
  qed
qed

lemma consecutive_pairs_shape:
  "\<forall>f \<in> set frames. shape (data f) = s \<Longrightarrow>
     \<forall>p \<in> set (consecutive_pairs frames). shape (fst p) = s"
  by (auto simp: consecutive_pairs_def dest!: set_zip_leftD in_set_butlastD)

lemma calculate_average_velocity_returns:
  assumes gf: "shape_preserving gf"
    and len: "2 \<le> length frames"
    and shapes: "\<forall>f \<in> set frames. shape (data f) = s"
    and ok: "\<exists>p \<in> set (consecutive_pairs frames). \<exists>uv.
               calculate_optical_flow pyrLK gf (fst p) (snd p) = Inr uv"
  shows "\<exists>u v. calculate_average_velocity pyrLK gf frames = Inr (u, v) \<and>
           shape u = s \<and> shape v = s \<and> well_shaped u \<and> well_shaped v"
proof -
  let ?st = "foldl (velocity_step pyrLK gf) (None, 0) (consecutive_pairs frames)"
  note pairs = consecutive_pairs_shape [OF shapes]
  from velocity_loop_sound [OF gf pairs, of "(None, 0)" pyrLK]
  have sound: "sums_sound s ?st" by simp
  from ok obtain p uv where p: "p \<in> set (consecutive_pairs frames)"
    "calculate_optical_flow pyrLK gf (fst p) (snd p) = Inr uv" by blast
  from velocity_loop_success [OF gf pairs p, of "(None, 0)"] have pos: "0 < snd ?st" by simp
  obtain acc n where st: "?st = (acc, n)" by (cases ?st) auto
  with pos have n: "0 < n" by simp
  with sound st obtain us vs where
    acc: "acc = Some (us, vs)" "shape us = s" "shape vs = s" "well_shaped us" "well_shaped vs"
    by (cases acc) auto
  have "calculate_average_velocity pyrLK gf frames =
          Inr (np_div_scalar us n, np_div_scalar vs n)"
    using len n st acc(1)
    by (simp add: calculate_average_velocity_def Let_def)
  with acc show ?thesis by simp
qed
subsection \<open>The forecast loop\<close>

lemma datetime_add_Inr:
  "datetime_add t d = Inr t' \<longleftrightarrow>
     datetime_min \<le> t + d \<and> t + d \<le> datetime_max \<and> t' = t + d"
  by (auto simp: datetime_add_def)

lemma forecast_loop_returns:
  assumes "shape u = shape f" "shape v = shape f"
    and "dtype u = Float32" "dtype v = Float32"
    and "0 < nrows f" "0 < ncols f"
    and "\<forall>step \<in> set steps.
           datetime_min \<le> t + timedelta_minutes (step * forecast_interval_minutes config) \<and>
           t + timedelta_minutes (step * forecast_interval_minutes config) \<le> datetime_max"
  shows "\<exists>st. forecast_loop config u v dt t steps (f, acc) = Inr st"
  using assms
proof (induction steps arbitrary: f acc)
  case Nil
  show ?case by simp
next
  case (Cons s steps)
  from advect_field_Inr [OF Cons.prems(1-6), of dt] obtain adv where
    adv: "advect_field f u v dt = Inr adv" "shape adv = shape f" by blast
  let ?f = "apply_growth_decay_model adv dt"
  have sh: "shape ?f = shape f" using adv(2) by simp
  with Cons.prems have f: "shape u = shape ?f" "shape v = shape ?f" "0 < nrows ?f" "0 < ncols ?f"
    by (simp_all add: shape_def)
  from Cons.prems(7) have time:
    "datetime_add t (timedelta_minutes (s * forecast_interval_minutes config)) =
       Inr (t + timedelta_minutes (s * forecast_interval_minutes config))"
    by (simp add: datetime_add_def)
  from Cons.prems(7) have rest: "\<forall>step \<in> set steps.
      datetime_min \<le> t + timedelta_minutes (step * forecast_interval_minutes config) \<and>
      t + timedelta_minutes (step * forecast_interval_minutes config) \<le> datetime_max"
    by simp
  from Cons.IH [OF f(1,2) Cons.prems(3,4) f(3,4) rest] show ?case
    using adv(1) time by (simp add: exn_bind_def Let_def)
qed

lemma forecast_loop_results:
  "forecast_loop config u v dt t steps (f, acc) = Inr (f', rs) \<Longrightarrow>
     \<exists>new. rs = acc @ new \<and>
       map confidence new = map (\<lambda>s. max (1 / 10) (1 - of_int s * (15 / 100))) steps \<and>
       map forecast_time new =
         map (\<lambda>s. t + timedelta_minutes (s * forecast_interval_minutes config)) steps"
proof (induction steps arbitrary: f acc)
  case Nil
  then show ?case by simp
next
  case (Cons s steps)
  from Cons.prems obtain adv where
    adv: "advect_field f u v dt = Inr adv"
    by (cases "advect_field f u v dt") (simp_all add: exn_bind_def)
  let ?t = "t + timedelta_minutes (s * forecast_interval_minutes config)"
  from Cons.prems adv have
    time: "datetime_add t (timedelta_minutes (s * forecast_interval_minutes config)) = Inr ?t"
    by (cases "datetime_add t (timedelta_minutes (s * forecast_interval_minutes config))")
      (auto simp: exn_bind_def Let_def datetime_add_Inr)
  let ?r = "\<lparr>forecast_time = ?t,
     forecast_data = astype_uint8 (apply_growth_decay_model adv dt),
     confidence = max (1 / 10) (1 - of_int s * (15 / 100)),
     forecast_method = ''fluid_dynamics''\<rparr>"
  from Cons.prems adv time have
    "forecast_loop config u v dt t steps (apply_growth_decay_model adv dt, acc @ [?r]) = Inr (f', rs)"
    by (simp add: exn_bind_def Let_def)
  from Cons.IH [OF this] obtain new where
    new: "rs = (acc @ [?r]) @ new"
      "map confidence new = map (\<lambda>s. max (1 / 10) (1 - of_int s * (15 / 100))) steps"
      "map forecast_time new =
         map (\<lambda>s. t + timedelta_minutes (s * forecast_interval_minutes config)) steps"
    by blast
  show ?case
    by (rule exI [of _ "?r # new"]) (use new in simp)
qed

lemma calculate_average_velocity_dtype:
  "calculate_average_velocity pyrLK gf frames = Inr (u, v) \<Longrightarrow>
     dtype u = Float32 \<and> dtype v = Float32"
  by (auto simp: calculate_average_velocity_def Let_def np_div_scalar_def
      split: if_splits prod.splits option.splits)

lemma flow_loop_returns:
  "10 \<le> cols \<Longrightarrow> \<exists>uv'. flow_loop rows cols pts uv = Inr uv'"
proof (induction pts arbitrary: uv)
  case Nil
  show ?case by simp
next
  case (Cons p pts)
  obtain i x y where p: "p = (i, x, y)" by (cases p) auto
  obtain u v where uv: "uv = (u, v)" by (cases uv) auto
  from Cons.prems have "cols div 10 \<noteq> 0" by (simp add: div_eq_0_iff)
  with Cons.IH [OF Cons.prems] p uv show ?case by (simp add: Let_def)
qed

lemma calculate_optical_flow_returns:
  assumes "pyrLK (astype_uint8 (np_clip frame1 0 255)) (astype_uint8 (np_clip frame2 0 255))
             (anchors (nrows frame1) (ncols frame1)) = Inr flow"
    and "10 \<le> ncols frame1 \<or> flow = None"
  shows "\<exists>uv. calculate_optical_flow pyrLK gf frame1 frame2 = Inr uv"
proof -
  have "\<exists>uv. velocity_field frame1 flow = Inr uv"
  proof (cases flow)
    case None
    then show ?thesis by (simp add: velocity_field_def Let_def)
  next
    case (Some pts)
    with assms(2) flow_loop_returns [of "ncols frame1" "nrows frame1" "enumerate 0 pts"
        "(zeros_like frame1, zeros_like frame1)"]
    show ?thesis by (simp add: velocity_field_def Let_def)
  qed
  then obtain uv where "velocity_field frame1 flow = Inr uv" ..
  with assms(1) show ?thesis
    by (cases uv) (simp add: calculate_optical_flow_def optical_flow_try_def Let_def exn_bind_def)
qed

text \<open>
  The run returns when the frames share a non-empty shape, some consecutive pair of the
  window yields a velocity estimate, and every forecast time is a \<^verbatim>\<open>datetime\<close>.
\<close>

lemma forecast_try_returns:
  assumes gf: "shape_preserving gf"
    and len: "3 \<le> length frames"
    and shapes: "\<forall>f \<in> set frames. shape (data f) = s"
    and size: "0 < fst s" "0 < snd s"
    and ok: "\<exists>p \<in> set (consecutive_pairs (drop (length frames - min 10 (length frames)) frames)).
               \<exists>uv. calculate_optical_flow pyrLK gf (fst p) (snd p) = Inr uv"
    and times: "\<forall>step \<in> set [1..forecast_steps config].
           datetime_min \<le> timestamp (last frames) +
               timedelta_minutes (step * forecast_interval_minutes config) \<and>
           timestamp (last frames) +
               timedelta_minutes (step * forecast_interval_minutes config) \<le> datetime_max"
  shows "\<exists>rs. generate_forecast config pyrLK gf frames = Inr rs \<and>
           map confidence rs =
             map (\<lambda>step. max (1 / 10) (1 - of_int step * (15 / 100))) [1..forecast_steps config] \<and>
           map forecast_time rs =
             map (\<lambda>step. timestamp (last frames) +
                    timedelta_minutes (step * forecast_interval_minutes config))
               [1..forecast_steps config]"
proof -
  let ?recent = "drop (length frames - min 10 (length frames)) frames"
  have rlen: "2 \<le> length ?recent" using len by simp
  have rshapes: "\<forall>f \<in> set ?recent. shape (data f) = s"
    using shapes by (auto dest: in_set_dropD)
  have rlast: "last ?recent = last frames" using len by simp
  from calculate_average_velocity_returns [OF gf rlen rshapes ok]
  obtain u v where uv: "calculate_average_velocity pyrLK gf ?recent = Inr (u, v)"
    "shape u = s" "shape v = s" by blast
  from calculate_average_velocity_dtype [OF uv(1)]
  have dt: "dtype u = Float32" "dtype v = Float32" by simp_all
  have "last frames \<in> set frames" using len by (intro last_in_set) auto
  with shapes have seed: "shape (data (last frames)) = s" by blast
  let ?seed = "astype_float32 (data (last frames))"
  from seed uv have sh: "shape u = shape ?seed" "shape v = shape ?seed" by simp_all
  from seed size have pos: "0 < nrows ?seed" "0 < ncols ?seed"
    by (auto simp: shape_def astype_float32_def)
  let ?dt = "real_of_int (forecast_interval_minutes config * 60)"
  from forecast_loop_returns [OF sh dt pos times, of ?dt "[]"]
  obtain f' rs where loop: "forecast_loop config u v ?dt (timestamp (last frames))
      [1..forecast_steps config] (?seed, []) = Inr (f', rs)"
    by auto
  from forecast_loop_results [OF loop] have
    "map confidence rs =
       map (\<lambda>step. max (1 / 10) (1 - of_int step * (15 / 100))) [1..forecast_steps config]"
    "map forecast_time rs =
       map (\<lambda>step. timestamp (last frames) +
              timedelta_minutes (step * forecast_interval_minutes config))
         [1..forecast_steps config]" by auto
  moreover have "generate_forecast config pyrLK gf frames = Inr rs"
    using len uv(1) loop rlast
    by (simp add: generate_forecast_def forecast_try_def Let_def exn_bind_def)
  ultimately show ?thesis by blast
qed

text \<open>
  The run raises when the first forecast time lies after \<^verbatim>\<open>datetime.max\<close>.
\<close>

lemma forecast_try_overflows:
  assumes gf: "shape_preserving gf"
    and len: "3 \<le> length frames"
    and shapes: "\<forall>f \<in> set frames. shape (data f) = s"
    and size: "0 < fst s" "0 < snd s"
    and ok: "\<exists>p \<in> set (consecutive_pairs (drop (length frames - min 10 (length frames)) frames)).
               \<exists>uv. calculate_optical_flow pyrLK gf (fst p) (snd p) = Inr uv"
    and steps: "1 \<le> forecast_steps config"
    and late: "datetime_max < timestamp (last frames) +
                 timedelta_minutes (forecast_interval_minutes config)"
  shows "generate_forecast config pyrLK gf frames =
           Inl (ForecastError ''Forecast generation failed: '' (Some OverflowError))"
proof -
  let ?recent = "drop (length frames - min 10 (length frames)) frames"
  have rlen: "2 \<le> length ?recent" using len by simp
  have rshapes: "\<forall>f \<in> set ?recent. shape (data f) = s"
    using shapes by (auto dest: in_set_dropD)
  have rlast: "last ?recent = last frames" using len by simp
  from calculate_average_velocity_returns [OF gf rlen rshapes ok]
  obtain u v where uv: "calculate_average_velocity pyrLK gf ?recent = Inr (u, v)"
    "shape u = s" "shape v = s" by blast
  from calculate_average_velocity_dtype [OF uv(1)]
  have dt: "dtype u = Float32" "dtype v = Float32" by simp_all
  have "last frames \<in> set frames" using len by (intro last_in_set) auto
  with shapes have seed: "shape (data (last frames)) = s" by blast
  let ?seed = "astype_float32 (data (last frames))"
  from seed uv have sh: "shape u = shape ?seed" "shape v = shape ?seed" by simp_all
  from seed size have pos: "0 < nrows ?seed" "0 < ncols ?seed"
    by (auto simp: shape_def astype_float32_def)
  let ?dt = "real_of_int (forecast_interval_minutes config * 60)"
  from advect_field_Inr [OF sh dt pos, of ?dt] obtain adv where
    adv: "advect_field ?seed u v ?dt = Inr adv" by blast
  from steps have upto: "[1..forecast_steps config] = 1 # [2..forecast_steps config]"
    by (simp add: upto_rec1)
  from late have "datetime_add (timestamp (last frames))
      (timedelta_minutes (1 * forecast_interval_minutes config)) = Inl OverflowError"
    by (simp add: datetime_add_def)
  with adv have "forecast_loop config u v ?dt (timestamp (last frames))
      [1..forecast_steps config] (?seed, []) = Inl OverflowError"
    unfolding upto by (simp add: exn_bind_def Let_def)
  with len uv(1) rlast show ?thesis
    by (simp add: generate_forecast_def forecast_try_def Let_def exn_bind_def)
qed

lemma generate_forecast_results:
  assumes "generate_forecast config pyrLK gf frames = Inr rs"
  shows "map confidence rs =
           map (\<lambda>step. max (1 / 10) (1 - of_int step * (15 / 100))) [1..forecast_steps config] \<and>
         map forecast_time rs =
           map (\<lambda>step. timestamp (last (drop (length frames - min 10 (length frames)) frames)) +
                  timedelta_minutes (step * forecast_interval_minutes config))
             [1..forecast_steps config]"
proof -
  let ?recent = "drop (length frames - min 10 (length frames)) frames"
  from assms have tr: "forecast_try config pyrLK gf frames = Inr rs"
    by (auto simp: generate_forecast_def split: if_splits sum.splits)
  then obtain u v where uv: "calculate_average_velocity pyrLK gf ?recent = Inr (u, v)"
    by (cases "calculate_average_velocity pyrLK gf ?recent")
      (auto simp: forecast_try_def Let_def exn_bind_def)
  let ?dt = "real_of_int (forecast_interval_minutes config * 60)"
  from tr uv obtain f' where loop:
    "forecast_loop config u v ?dt (timestamp (last ?recent))
      [1..forecast_steps config] (astype_float32 (data (last ?recent)), []) = Inr (f', rs)"
    by (cases "forecast_loop config u v ?dt (timestamp (last ?recent))
      [1..forecast_steps config] (astype_float32 (data (last ?recent)), [])")
      (auto simp: forecast_try_def Let_def exn_bind_def)
  from forecast_loop_results [OF loop] show ?thesis by auto
qed

subsection \<open>The concrete buffers\<close>

lemma shape_preserving_no_smoothing: "shape_preserving no_smoothing"
  by (simp add: shape_preserving_def no_smoothing_def)

lemma ten_blank_frames_shape: "\<forall>f \<in> set ten_blank_frames. shape (data f) = (1, 10)"
  by (simp add: ten_blank_frames_def blank_frame_def shape_def)

lemma ten_blank_frames_flow:
  "\<exists>p \<in> set (consecutive_pairs ten_blank_frames). \<exists>uv.
     calculate_optical_flow still_tracker no_smoothing (fst p) (snd p) = Inr uv"
proof -
  let ?p = "(data (blank_frame 1 10 0), data (blank_frame 1 10 600000000))"
  have "?p \<in> set (consecutive_pairs ten_blank_frames)"
    by (simp add: consecutive_pairs_def ten_blank_frames_def)
  moreover have "\<exists>uv. calculate_optical_flow still_tracker no_smoothing (fst ?p) (snd ?p) = Inr uv"
    by (rule calculate_optical_flow_returns [where flow = "Some (anchors 1 10)"])
      (simp_all add: still_tracker_def blank_frame_def)
  ultimately show ?thesis by blast
qed

lemma ten_blank_frames_times:
  "\<forall>step \<in> set [1..forecast_steps default_config].
     datetime_min \<le> timestamp (last ten_blank_frames) +
         timedelta_minutes (step * forecast_interval_minutes default_config) \<and>
     timestamp (last ten_blank_frames) +
         timedelta_minutes (step * forecast_interval_minutes default_config) \<le> datetime_max"
  by (auto simp: default_config_def ten_blank_frames_def blank_frame_def timedelta_minutes_def
      datetime_min_def datetime_max_def)

lemma ten_blank_frames_run:
  "\<exists>rs. generate_forecast default_config still_tracker no_smoothing ten_blank_frames = Inr rs"
proof -
  have len: "3 \<le> length ten_blank_frames" by (simp add: ten_blank_frames_def)
  have "drop (length ten_blank_frames - min 10 (length ten_blank_frames)) ten_blank_frames =
          ten_blank_frames" by (simp add: ten_blank_frames_def)
  with ten_blank_frames_flow have
    "\<exists>p \<in> set (consecutive_pairs
         (drop (length ten_blank_frames - min 10 (length ten_blank_frames)) ten_blank_frames)).
       \<exists>uv. calculate_optical_flow still_tracker no_smoothing (fst p) (snd p) = Inr uv" by simp
  from forecast_try_returns [OF shape_preserving_no_smoothing len ten_blank_frames_shape _ _ this
      ten_blank_frames_times]
  show ?thesis by auto
qed

lemma late_blank_frames_pairs:
  "consecutive_pairs late_blank_frames = consecutive_pairs ten_blank_frames"
  by (simp add: consecutive_pairs_def late_blank_frames_def map_butlast [symmetric] map_tl o_def)

lemma late_blank_frames_shape: "\<forall>f \<in> set late_blank_frames. shape (data f) = (1, 10)"
  using ten_blank_frames_shape by (simp add: late_blank_frames_def)

lemma late_blank_frames_last: "timestamp (last late_blank_frames) = 315537897300000000"
  by (simp add: late_blank_frames_def ten_blank_frames_def blank_frame_def)

subsection \<open>Claims C2 and C3: the forecast sequence\<close>

text \<open>
  C2, as amended.  On a buffer of 10 frames of one shape with at least one row and at
  least 10 columns, on which the tracker returns for at least one consecutive pair, and
  whose last timestamp leaves 60 minutes before \<^verbatim>\<open>datetime.max\<close>,
  \<open>generate_forecast\<close> with 6 steps of 10 minutes returns exactly 6 results; the
  k-th result (counted from 1) is stamped with the last input frame's timestamp plus k
  times 10 minutes, so the timestamps are all after the last input frame's, strictly
  increasing and 10 minutes apart.
\<close>

theorem six_forecasts_ten_minutes_apart:
  assumes len: "length frames = 10"
    and shapes: "\<forall>f \<in> set frames. shape (data f) = (rows, cols)"
    and size: "0 < rows" "10 \<le> cols"
    and gf: "shape_preserving gf"
    and tracked: "\<exists>p \<in> set (consecutive_pairs frames). \<exists>flow.
               pyrLK (astype_uint8 (np_clip (fst p) 0 255)) (astype_uint8 (np_clip (snd p) 0 255))
                 (anchors rows cols) = Inr flow"
    and time: "datetime_min \<le> timestamp (last frames)"
      "timestamp (last frames) + timedelta_minutes 60 \<le> datetime_max"
    and steps: "forecast_steps config = 6"
    and interval: "forecast_interval_minutes config = 10"
  shows "\<exists>rs. generate_forecast config pyrLK gf frames = Inr rs \<and> length rs = 6 \<and>
           (\<forall>k < 6. forecast_time (rs ! k) =
                      timestamp (last frames) + timedelta_minutes (10 * (int k + 1))) \<and>
           (\<forall>k < 6. timestamp (last frames) < forecast_time (rs ! k)) \<and>
           (\<forall>k < 5. forecast_time (rs ! Suc k) = forecast_time (rs ! k) + timedelta_minutes 10 \<and>
                      forecast_time (rs ! k) < forecast_time (rs ! Suc k))"
proof -
  have len3: "3 \<le> length frames" using len by simp
  have whole: "drop (length frames - min 10 (length frames)) frames = frames" using len by simp
  from tracked obtain p flow where p: "p \<in> set (consecutive_pairs frames)"
    and flow: "pyrLK (astype_uint8 (np_clip (fst p) 0 255)) (astype_uint8 (np_clip (snd p) 0 255))
                 (anchors rows cols) = Inr flow" by blast
  from consecutive_pairs_shape [OF shapes] p have "shape (fst p) = (rows, cols)" by blast
  then have dims: "nrows (fst p) = rows" "ncols (fst p) = cols" by (simp_all add: shape_def)
  from calculate_optical_flow_returns [of pyrLK "fst p" "snd p" flow gf] flow dims size(2)
  have "\<exists>uv. calculate_optical_flow pyrLK gf (fst p) (snd p) = Inr uv" by simp
  with p whole have ok: "\<exists>p \<in> set (consecutive_pairs
         (drop (length frames - min 10 (length frames)) frames)).
       \<exists>uv. calculate_optical_flow pyrLK gf (fst p) (snd p) = Inr uv" by auto
  have times: "\<forall>step \<in> set [1..forecast_steps config].
      datetime_min \<le> timestamp (last frames) +
          timedelta_minutes (step * forecast_interval_minutes config) \<and>
      timestamp (last frames) +
          timedelta_minutes (step * forecast_interval_minutes config) \<le> datetime_max"
    using time steps interval by (auto simp: timedelta_minutes_def)
  have pos: "0 < fst (rows, cols)" "0 < snd (rows, cols)" using size by simp_all
  from forecast_try_returns [OF gf len3 shapes pos ok times] steps interval
  obtain rs where run: "generate_forecast config pyrLK gf frames = Inr rs"
    and times: "map forecast_time rs =
      map (\<lambda>step. timestamp (last frames) + timedelta_minutes (step * 10)) [1..6]"
    by auto
  from times have "length (map forecast_time rs) = length [1..(6::int)]" by simp
  then have n: "length rs = 6" by simp
  have nth: "forecast_time (rs ! k) =
      timestamp (last frames) + timedelta_minutes (10 * (int k + 1))" if "k < 6" for k
  proof -
    from that n have "forecast_time (rs ! k) = map forecast_time rs ! k" by simp
    also have "\<dots> = timestamp (last frames) + timedelta_minutes ([1..6] ! k * 10)"
      using that by (simp add: times)
    also have "[1..6] ! k = 1 + int k" using that by (intro nth_upto) simp
    finally show ?thesis by (simp add: mult.commute add.commute)
  qed
  have after: "timestamp (last frames) < forecast_time (rs ! k)" if "k < 6" for k
    using nth [OF that] by (simp add: timedelta_minutes_def)
  have apart: "forecast_time (rs ! Suc k) = forecast_time (rs ! k) + timedelta_minutes 10 \<and>
      forecast_time (rs ! k) < forecast_time (rs ! Suc k)"
    if "k < 5" for k
  proof -
    from that have "k < 6" "Suc k < 6" by simp_all
    from nth [OF this(1)] nth [OF this(2)] show ?thesis by (simp add: timedelta_minutes_def)
  qed
  from run n nth after apart show ?thesis by blast
qed

theorem six_forecasts_ten_minutes_apart_witness:
  "\<exists>rs. generate_forecast default_config still_tracker no_smoothing ten_blank_frames = Inr rs \<and>
     length rs = 6 \<and>
     forecast_time (rs ! 0) = 6000000000 \<and>
     forecast_time (rs ! 5) = 9000000000"
proof -
  have len: "length ten_blank_frames = 10" by (simp add: ten_blank_frames_def)
  have tracked: "\<exists>p \<in> set (consecutive_pairs ten_blank_frames). \<exists>flow.
      still_tracker (astype_uint8 (np_clip (fst p) 0 255)) (astype_uint8 (np_clip (snd p) 0 255))
        (anchors 1 10) = Inr flow"
    by (auto simp: still_tracker_def consecutive_pairs_def ten_blank_frames_def)
  have last: "timestamp (last ten_blank_frames) = 5400000000"
    by (simp add: ten_blank_frames_def blank_frame_def)
  have time: "datetime_min \<le> timestamp (last ten_blank_frames)"
    "timestamp (last ten_blank_frames) + timedelta_minutes 60 \<le> datetime_max"
    by (simp_all add: last datetime_min_def datetime_max_def timedelta_minutes_def)
  have size: "0 < (1::nat)" "10 \<le> (10::nat)" by simp_all
  from six_forecasts_ten_minutes_apart [where pyrLK = still_tracker and config = default_config,
      OF len ten_blank_frames_shape size shape_preserving_no_smoothing tracked time]
  obtain rs where
    "generate_forecast default_config still_tracker no_smoothing ten_blank_frames = Inr rs"
    "length rs = 6"
    "\<forall>k < 6. forecast_time (rs ! k) =
        timestamp (last ten_blank_frames) + timedelta_minutes (10 * (int k + 1))"
    by (auto simp: default_config_def)
  then show ?thesis
    by (intro exI [of _ rs]) (simp add: last timedelta_minutes_def)
qed

text \<open>
  C2 as stated fails: ten blank frames of one shape, ten minutes apart, the last one five
  minutes before \<^verbatim>\<open>datetime.max\<close>, are a well-formed buffer, and the run raises
  \<open>ForecastError\<close> because the first forecast time is not a \<^verbatim>\<open>datetime\<close>.
\<close>

theorem six_forecasts_counterexample:
  "length late_blank_frames = 10 \<and>
   list_all (\<lambda>f. shape (data f) = (1, 10) \<and> well_shaped (data f) \<and> in_range 0 255 (data f))
     late_blank_frames \<and>
   generate_forecast default_config still_tracker no_smoothing late_blank_frames =
     Inl (ForecastError ''Forecast generation failed: '' (Some OverflowError))"
proof -
  have len: "length late_blank_frames = 10"
    by (simp add: late_blank_frames_def ten_blank_frames_def)
  then have len3: "3 \<le> length late_blank_frames" by simp
  have whole: "drop (length late_blank_frames - min 10 (length late_blank_frames))
      late_blank_frames = late_blank_frames" using len by simp
  have ok: "\<exists>p \<in> set (consecutive_pairs
         (drop (length late_blank_frames - min 10 (length late_blank_frames)) late_blank_frames)).
       \<exists>uv. calculate_optical_flow still_tracker no_smoothing (fst p) (snd p) = Inr uv"
    using ten_blank_frames_flow by (simp add: whole late_blank_frames_pairs)
  have run: "generate_forecast default_config still_tracker no_smoothing late_blank_frames =
     Inl (ForecastError ''Forecast generation failed: '' (Some OverflowError))"
    by (rule forecast_try_overflows [OF shape_preserving_no_smoothing len3
          late_blank_frames_shape _ _ ok])
      (simp_all add: default_config_def late_blank_frames_last timedelta_minutes_def
        datetime_max_def)
  have "list_all (\<lambda>f. shape (data f) = (1, 10) \<and> well_shaped (data f) \<and> in_range 0 255 (data f))
     late_blank_frames"
    by (simp add: late_blank_frames_def ten_blank_frames_def blank_frame_def shape_def
        well_shaped_def in_range_def list_all_iff)
  with len run show ?thesis by simp
qed

text \<open>
  C3.  In every run of \<open>generate_forecast\<close> that returns, there is one result per
  configured step, the confidence of the k-th step (counted from 1; index \<open>k - 1\<close>
  of the list) is \<open>max(0.1, 1.0 - 0.15 k)\<close>, it is at least 0.1 and lies in
  \<open>(0, 1]\<close>, and it does not increase from one step to the next.
\<close>

theorem confidence_decay:
  assumes run: "generate_forecast config pyrLK gf frames = Inr rs"
  shows "length rs = nat (forecast_steps config) \<and>
         (\<forall>k < length rs.
            confidence (rs ! k) = max (1 / 10) (1 - (real k + 1) * (15 / 100)) \<and>
            1 / 10 \<le> confidence (rs ! k) \<and> 0 < confidence (rs ! k) \<and> confidence (rs ! k) \<le> 1) \<and>
         (\<forall>k. Suc k < length rs \<longrightarrow> confidence (rs ! Suc k) \<le> confidence (rs ! k))"
proof -
  from generate_forecast_results [OF run] have conf:
    "map confidence rs =
       map (\<lambda>step. max (1 / 10) (1 - of_int step * (15 / 100))) [1..forecast_steps config]"
    by simp
  then have "length (map confidence rs) = length [1..forecast_steps config]" by simp
  then have n: "length rs = nat (forecast_steps config)" by simp
  have nth: "confidence (rs ! k) = max (1 / 10) (1 - (real k + 1) * (15 / 100))"
    if "k < length rs" for k
  proof -
    from that have "confidence (rs ! k) = map confidence rs ! k" by simp
    also have "\<dots> = max (1 / 10) (1 - of_int ([1..forecast_steps config] ! k) * (15 / 100))"
      using that n by (simp add: conf)
    also have "[1..forecast_steps config] ! k = 1 + int k"
      using that n by (intro nth_upto) simp
    finally show ?thesis by (simp add: add.commute)
  qed
  have bounds: "1 / 10 \<le> confidence (rs ! k) \<and> 0 < confidence (rs ! k) \<and> confidence (rs ! k) \<le> 1"
    if "k < length rs" for k
    using nth [OF that] by (simp add: max_def)
  have mono: "confidence (rs ! Suc k) \<le> confidence (rs ! k)" if "Suc k < length rs" for k
  proof -
    from that have "k < length rs" by simp
    from nth [OF this] nth [OF that] show ?thesis by (simp add: max_def)
  qed
  from n nth bounds mono show ?thesis by blast
qed

theorem confidence_decay_witness:
  "\<exists>rs. generate_forecast default_config still_tracker no_smoothing ten_blank_frames = Inr rs \<and>
     length rs = 6 \<and>
     confidence (rs ! 0) = 85 / 100 \<and> confidence (rs ! 1) = 70 / 100 \<and>
     confidence (rs ! 5) = 1 / 10"
proof -
  from ten_blank_frames_run obtain rs where
    run: "generate_forecast default_config still_tracker no_smoothing ten_blank_frames = Inr rs" ..
  from confidence_decay [OF run] have
    "length rs = 6"
    "\<forall>k < length rs. confidence (rs ! k) = max (1 / 10) (1 - (real k + 1) * (15 / 100))"
    by (simp_all add: default_config_def)
  with run show ?thesis by (intro exI [of _ rs]) simp
qed
subsection \<open>Claims C6 and C7: the evolution model\<close>

lemma map2_map_same:
  "map2 f (map g xs) (map h xs) = map (\<lambda>x. f (g x) (h x)) xs"
  by (induction xs) simp_all

lemma zip_map_same:
  "zip (map f xs) (map g xs) = map (\<lambda>x. (f x, g x)) xs"
  by (induction xs) simp_all

lemma map2_map_left:
  "map2 f (map g xs) xs = map (\<lambda>x. f (g x) x) xs"
  by (induction xs) simp_all

lemma growth_decay_try_float:
  assumes "dtype field = Float32"
  shows "growth_decay_try field dt =
     Inr (field\<lparr>dtype := Float32, cells :=
       map (\<lambda>x. clip (scale_where (180 < x) (1 - 15 / 100 * dt / 3600)
                         (scale_where (80 < x \<and> x < 150) (1 + 5 / 100 * dt / 3600) x)
                       * exp (- (1 / 10) * dt / 3600)) 0 255)
         (cells field)\<rparr>)"
  using assms
  by (simp add: growth_decay_try_def imul_masked_def exn_bind_def Let_def np_clip_def
      apply_precipitation_decay_def np_mul_scalar_def map2_map_left zip_map_same
      scale_where_def o_def)

lemma growth_decay_try_uint8:
  "dtype field = UInt8 \<Longrightarrow> growth_decay_try field dt = Inl UFuncTypeError"
  by (simp add: growth_decay_try_def imul_masked_def exn_bind_def Let_def)

lemma growth_decay_try_returns:
  assumes "dtype field \<noteq> UInt8"
  shows "growth_decay_try field dt =
     Inr (field\<lparr>cells :=
       map (\<lambda>x. clip (scale_where (180 < x) (1 - 15 / 100 * dt / 3600)
                         (scale_where (80 < x \<and> x < 150) (1 + 5 / 100 * dt / 3600) x)
                       * exp (- (1 / 10) * dt / 3600)) 0 255)
         (cells field)\<rparr>)"
proof -
  have "field\<lparr>dtype := (if dtype field = Float32 then Float32 else Float64)\<rparr> = field"
    using assms by (cases "dtype field") simp_all
  then show ?thesis
    using assms
    by (simp add: growth_decay_try_def imul_masked_def exn_bind_def Let_def np_clip_def
        apply_precipitation_decay_def np_mul_scalar_def map2_map_left zip_map_same
        scale_where_def o_def)
qed

lemma sequential_agrees:
  assumes "\<And>x. 80 < x \<Longrightarrow> x < 150 \<Longrightarrow> \<not> 180 < x * g"
  shows "map (\<lambda>x. clip x 0 255)
           (map (\<lambda>x. x * w)
              (map (\<lambda>x. if 180 < x then x * d else x)
                 (map (\<lambda>x. if 80 < x \<and> x < 150 then x * g else x) xs))) =
         map (\<lambda>x. clip (scale_where (180 < x) d (scale_where (80 < x \<and> x < 150) g x) * w) 0 255) xs"
  using assms by (auto simp: scale_where_def)

lemma band_stays_below_threshold:
  fixes x dt :: real
  assumes "80 < x" "x < 150" "dt \<le> 14400"
  shows "\<not> 180 < x * (1 + 5 / 100 * dt / 3600)"
proof -
  have g: "1 + 5 / 100 * dt / 3600 \<le> 12 / 10" using assms(3) by simp
  have "x * (1 + 5 / 100 * dt / 3600) \<le> x * (12 / 10)"
    using assms(1) g by (intro mult_left_mono) simp_all
  also have "\<dots> < 180" using assms(2) by simp
  finally show ?thesis by simp
qed

text \<open>
  C6, as amended.  On a floating-point field the evolution model scales by
  \<open>1 + 0.05 dt/3600\<close> the cells whose input value lies strictly between 80 and
  150, then scales by \<open>1 - 0.15 dt/3600\<close> the cells whose input value exceeds
  180, then multiplies the whole field by \<open>exp(-0.1 dt/3600)\<close> and clamps it into
  0..255.  Each scaling acts on the value the previous effect left in the cell, but
  both bands are tested on the input field.  For \<open>dt\<close> up to 14400 seconds
  this is the same as testing each band on the current state.
\<close>

theorem evolution_model_order:
  assumes "dtype field = Float32"
  shows "apply_growth_decay_model field dt =
           field\<lparr>cells :=
             map (\<lambda>x. clip (scale_where (180 < x) (1 - 15 / 100 * dt / 3600)
                               (scale_where (80 < x \<and> x < 150) (1 + 5 / 100 * dt / 3600) x)
                             * exp (- (1 / 10) * dt / 3600)) 0 255)
               (cells field)\<rparr> \<and>
         (dt \<le> 14400 \<longrightarrow> apply_growth_decay_model field dt = evolve_sequential field dt)"
proof (intro conjI impI)
  have "field\<lparr>dtype := Float32\<rparr> = field" using assms by simp
  then show model: "apply_growth_decay_model field dt =
           field\<lparr>cells :=
             map (\<lambda>x. clip (scale_where (180 < x) (1 - 15 / 100 * dt / 3600)
                               (scale_where (80 < x \<and> x < 150) (1 + 5 / 100 * dt / 3600) x)
                             * exp (- (1 / 10) * dt / 3600)) 0 255)
               (cells field)\<rparr>"
    by (simp add: apply_growth_decay_model_def growth_decay_try_float [OF assms])
  assume dt: "dt \<le> 14400"
  have band: "\<not> 180 < x * (1 + 5 / 100 * dt / 3600)" if "80 < x" "x < 150" for x
    using that dt by (rule band_stays_below_threshold)
  have "cells (evolve_sequential field dt) =
      map (\<lambda>x. clip x 0 255)
        (map (\<lambda>x. x * exp (- (1 / 10) * dt / 3600))
           (map (\<lambda>x. if 180 < x then x * (1 - 15 / 100 * dt / 3600) else x)
              (map (\<lambda>x. if 80 < x \<and> x < 150 then x * (1 + 5 / 100 * dt / 3600) else x)
                 (cells field))))"
    by (simp add: evolve_sequential_def Let_def)
  also have "\<dots> =
      map (\<lambda>x. clip (scale_where (180 < x) (1 - 15 / 100 * dt / 3600)
                        (scale_where (80 < x \<and> x < 150) (1 + 5 / 100 * dt / 3600) x)
                      * exp (- (1 / 10) * dt / 3600)) 0 255)
        (cells field)"
    by (rule sequential_agrees [OF band])
  finally have "evolve_sequential field dt =
      field\<lparr>cells :=
        map (\<lambda>x. clip (scale_where (180 < x) (1 - 15 / 100 * dt / 3600)
                          (scale_where (80 < x \<and> x < 150) (1 + 5 / 100 * dt / 3600) x)
                        * exp (- (1 / 10) * dt / 3600)) 0 255)
          (cells field)\<rparr>"
    using assms by (simp add: evolve_sequential_def Let_def)
  with model show "apply_growth_decay_model field dt = evolve_sequential field dt"
    by simp
qed

theorem evolution_model_order_witness:
  "apply_growth_decay_model (one_cell Float32 140) 600 =
     one_cell Float32 (clip (140 * (1 + 5 / 100 * 600 / 3600) * exp (- (1 / 10) * 600 / 3600)) 0 255) \<and>
   apply_growth_decay_model (one_cell Float32 140) 600 =
     evolve_sequential (one_cell Float32 140) 600"
proof -
  have "dtype (one_cell Float32 140) = Float32" by (simp add: one_cell_def)
  note order = evolution_model_order [OF this, of 600]
  have
    model: "apply_growth_decay_model (one_cell Float32 140) 600 =
      (one_cell Float32 140)\<lparr>cells :=
        map (\<lambda>x. clip (scale_where (180 < x) (1 - 15 / 100 * 600 / 3600)
                          (scale_where (80 < x \<and> x < 150) (1 + 5 / 100 * 600 / 3600) x)
                        * exp (- (1 / 10) * 600 / 3600)) 0 255)
          (cells (one_cell Float32 140))\<rparr>"
    by (rule order [THEN conjunct1])
  have seq: "apply_growth_decay_model (one_cell Float32 140) 600 =
      evolve_sequential (one_cell Float32 140) 600"
    using order [THEN conjunct2] by simp
  have "(one_cell Float32 140)\<lparr>cells :=
        map (\<lambda>x. clip (scale_where (180 < x) (1 - 15 / 100 * 600 / 3600)
                          (scale_where (80 < x \<and> x < 150) (1 + 5 / 100 * 600 / 3600) x)
                        * exp (- (1 / 10) * 600 / 3600)) 0 255)
          (cells (one_cell Float32 140))\<rparr> =
     one_cell Float32 (clip (140 * (1 + 5 / 100 * 600 / 3600) * exp (- (1 / 10) * 600 / 3600)) 0 255)"
    by (simp add: one_cell_def scale_where_def)
  with model seq show ?thesis by simp
qed

text \<open>
  C6 as stated fails: after ten hours a cell at 140 has grown to 210, above the decay
  threshold; the code does not apply the decay to it (its input value was not above
  180), the sequential reading does.
\<close>

theorem evolution_model_order_counterexample:
  "apply_growth_decay_model (one_cell Float32 140) 36000 \<noteq>
     evolve_sequential (one_cell Float32 140) 36000"
proof -
  have pos: "0 < 210 * exp (- (1::real))" by simp
  have neg: "- 105 * exp (- (1::real)) < 0" by simp
  have code: "cells (apply_growth_decay_model (one_cell Float32 140) 36000) =
          [clip (210 * exp (- 1)) 0 255]"
    by (simp add: apply_growth_decay_model_def growth_decay_try_float one_cell_def
        scale_where_def)
  have spec: "cells (evolve_sequential (one_cell Float32 140) 36000) =
          [clip (- 105 * exp (- 1)) 0 255]"
    by (simp add: evolve_sequential_def one_cell_def Let_def)
  have "clip (210 * exp (- 1)) 0 255 \<noteq> clip (- 105 * exp (- 1)) 0 255"
    using pos neg by (simp add: clip_def max_def min_def)
  with code spec show ?thesis by auto
qed

lemma advect_try_no_broadcast:
  assumes "broadcast_dim (nrows field) (nrows u) = None \<or>
           broadcast_dim (ncols field) (ncols u) = None \<or>
           broadcast_dim (nrows field) (nrows v) = None \<or>
           broadcast_dim (ncols field) (ncols v) = None"
  shows "advect_try field u v dt = Inl ValueError"
  using assms
  by (auto simp: advect_try_def mgrid_def np_sub_def np_mul_scalar_def exn_bind_def Let_def
      split: option.splits)

lemma advect_try_empty:
  assumes "nrows field = 0 \<or> ncols field = 0"
  shows "advect_try field u v dt = Inl ValueError \<or>
         advect_try field u v dt = Inl (Cv2Error ''remap'')"
proof (cases "advect_try field u v dt")
  case (Inl e)
  then show ?thesis
    by (auto simp: advect_try_def mgrid_def np_sub_def np_mul_scalar_def exn_bind_def Let_def
        cv2_remap_def split: option.splits if_splits)
next
  case (Inr adv)
  then have "advect_field field u v dt = Inr adv" by (simp add: advect_field_def)
  from advect_field_cells [OF this] assms show ?thesis by simp
qed

text \<open>
  C7.  \<open>apply_growth_decay_model\<close> returns a field for every input field and every
  \<open>dt\<close>.  Its computation raises exactly on an integer field (numpy refuses the
  in-place scaling, \<open>UFuncTypeError\<close>), and then the result is the input field,
  unchanged and unclamped; on a floating-point field the computation returns and the
  result is the evolved, clamped field.  \<open>advect_field\<close> instead raises
  \<open>ForecastError\<close> when its computation raises: on an empty field (OpenCV refuses
  empty maps) and on a velocity field that cannot be broadcast to the field's shape
  (\<open>ValueError\<close>).
\<close>

theorem evolution_soft_fail:
  "(dtype field = UInt8 \<longrightarrow>
      growth_decay_try field dt = Inl UFuncTypeError \<and>
      apply_growth_decay_model field dt = field) \<and>
   (dtype field \<noteq> UInt8 \<longrightarrow>
      growth_decay_try field dt = Inr (apply_growth_decay_model field dt) \<and>
      apply_growth_decay_model field dt =
        field\<lparr>cells :=
          map (\<lambda>x. clip (scale_where (180 < x) (1 - 15 / 100 * dt / 3600)
                            (scale_where (80 < x \<and> x < 150) (1 + 5 / 100 * dt / 3600) x)
                          * exp (- (1 / 10) * dt / 3600)) 0 255)
            (cells field)\<rparr>) \<and>
   (nrows field = 0 \<or> ncols field = 0 \<longrightarrow>
      advect_field field u v dt =
        Inl (ForecastError ''Field advection failed: '' (Some ValueError)) \<or>
      advect_field field u v dt =
        Inl (ForecastError ''Field advection failed: '' (Some (Cv2Error ''remap'')))) \<and>
   (broadcast_dim (nrows field) (nrows u) = None \<or>
    broadcast_dim (ncols field) (ncols u) = None \<or>
    broadcast_dim (nrows field) (nrows v) = None \<or>
    broadcast_dim (ncols field) (ncols v) = None \<longrightarrow>
      advect_field field u v dt =
        Inl (ForecastError ''Field advection failed: '' (Some ValueError)))"
proof (intro conjI impI)
  assume "dtype field = UInt8"
  then show "growth_decay_try field dt = Inl UFuncTypeError"
    by (rule growth_decay_try_uint8)
next
  assume "dtype field = UInt8"
  then show "apply_growth_decay_model field dt = field"
    by (simp add: apply_growth_decay_model_def growth_decay_try_uint8)
next
  assume "dtype field \<noteq> UInt8"
  then show "growth_decay_try field dt = Inr (apply_growth_decay_model field dt)"
    by (simp add: apply_growth_decay_model_def growth_decay_try_returns)
next
  assume "dtype field \<noteq> UInt8"
  then show "apply_growth_decay_model field dt =
        field\<lparr>cells :=
          map (\<lambda>x. clip (scale_where (180 < x) (1 - 15 / 100 * dt / 3600)
                            (scale_where (80 < x \<and> x < 150) (1 + 5 / 100 * dt / 3600) x)
                          * exp (- (1 / 10) * dt / 3600)) 0 255)
            (cells field)\<rparr>"
    by (simp add: apply_growth_decay_model_def growth_decay_try_returns)
next
  assume "nrows field = 0 \<or> ncols field = 0"
  from advect_try_empty [OF this, of u v dt]
  show "advect_field field u v dt =
        Inl (ForecastError ''Field advection failed: '' (Some ValueError)) \<or>
      advect_field field u v dt =
        Inl (ForecastError ''Field advection failed: '' (Some (Cv2Error ''remap'')))"
    by (auto simp: advect_field_def)
next
  assume "broadcast_dim (nrows field) (nrows u) = None \<or>
    broadcast_dim (ncols field) (ncols u) = None \<or>
    broadcast_dim (nrows field) (nrows v) = None \<or>
    broadcast_dim (ncols field) (ncols v) = None"
  from advect_try_no_broadcast [OF this, of dt]
  show "advect_field field u v dt =
      Inl (ForecastError ''Field advection failed: '' (Some ValueError))"
    by (simp add: advect_field_def)
qed

theorem evolution_soft_fail_witness:
  "apply_growth_decay_model (one_cell UInt8 200) 600 = one_cell UInt8 200 \<and>
   apply_growth_decay_model (one_cell Float32 300) 0 = one_cell Float32 255 \<and>
   advect_field empty_field (zeros_like empty_field) (zeros_like empty_field) 600 =
     Inl (ForecastError ''Field advection failed: '' (Some (Cv2Error ''remap''))) \<and>
   advect_field (two_cells 10 250) (zeros_like (data (blank_frame 1 3 0)))
       (zeros_like (data (blank_frame 1 3 0))) 600 =
     Inl (ForecastError ''Field advection failed: '' (Some ValueError))"
proof -
  have "apply_growth_decay_model (one_cell UInt8 200) 600 = one_cell UInt8 200"
    using evolution_soft_fail [of "one_cell UInt8 200" 600] by (simp add: one_cell_def)
  moreover have "apply_growth_decay_model (one_cell Float32 300) 0 = one_cell Float32 255"
    using evolution_soft_fail [of "one_cell Float32 300" 0]
    by (simp add: one_cell_def scale_where_def clip_def)
  moreover have
    "advect_field empty_field (zeros_like empty_field) (zeros_like empty_field) 600 =
       Inl (ForecastError ''Field advection failed: '' (Some (Cv2Error ''remap'')))"
  proof -
    have "advect_field empty_field (zeros_like empty_field) (zeros_like empty_field) 600 \<noteq>
       Inl (ForecastError ''Field advection failed: '' (Some ValueError))"
      by (simp add: advect_field_def advect_try_def mgrid_def np_sub_def np_mul_scalar_def
          exn_bind_def Let_def empty_field_def zeros_like_def broadcast_dim_def promote_def
          cv2_remap_def stretch_def np_clip_def shape_def)
    with evolution_soft_fail [of empty_field 600 "zeros_like empty_field"
        "zeros_like empty_field"]
    show ?thesis by (simp add: empty_field_def)
  qed
  moreover have
    "advect_field (two_cells 10 250) (zeros_like (data (blank_frame 1 3 0)))
       (zeros_like (data (blank_frame 1 3 0))) 600 =
     Inl (ForecastError ''Field advection failed: '' (Some ValueError))"
    using evolution_soft_fail [of "two_cells 10 250" 600 "zeros_like (data (blank_frame 1 3 0))"
        "zeros_like (data (blank_frame 1 3 0))"]
    by (simp add: two_cells_def zeros_like_def blank_frame_def broadcast_dim_def)
  ultimately show ?thesis by simp
qed
subsection \<open>Claims C8 and C10: advection\<close>

lemma lerp_bounds:
  fixes a b t lo hi :: real
  assumes "0 \<le> t" "t \<le> 1" "lo \<le> a" "a \<le> hi" "lo \<le> b" "b \<le> hi"
  shows "lo \<le> (1 - t) * a + t * b \<and> (1 - t) * a + t * b \<le> hi"
proof
  have "(1 - t) * lo + t * lo \<le> (1 - t) * a + t * b"
    using assms by (intro add_mono mult_left_mono) simp_all
  then show "lo \<le> (1 - t) * a + t * b" by (simp add: algebra_simps)
  have "(1 - t) * a + t * b \<le> (1 - t) * hi + t * hi"
    using assms by (intro add_mono mult_left_mono) simp_all
  then show "(1 - t) * a + t * b \<le> hi" by (simp add: algebra_simps)
qed

lemma cell_index_bound:
  fixes r c :: nat
  assumes "r < rows" "c < cols"
  shows "r * cols + c < rows * cols"
proof -
  have "r * cols + c < r * cols + cols" using assms by simp
  also have "\<dots> = Suc r * cols" by simp
  also have "\<dots> \<le> rows * cols" using assms by (intro mult_le_mono1) simp
  finally show ?thesis .
qed

lemma pixel_in_range:
  assumes "well_shaped src" "in_range lo hi src"
    and "0 \<le> r" "r < int (nrows src)" "0 \<le> c" "c < int (ncols src)"
  shows "lo \<le> pixel src r c \<and> pixel src r c \<le> hi"
proof -
  have "nat r < nrows src" "nat c < ncols src" using assms by simp_all
  from cell_index_bound [OF this] assms(1)
  have "nat r * ncols src + nat c < length (cells src)" by (simp add: well_shaped_def)
  then have "cells src ! (nat r * ncols src + nat c) \<in> set (cells src)" by simp
  with assms(2) have "lo \<le> cells src ! (nat r * ncols src + nat c) \<and>
      cells src ! (nat r * ncols src + nat c) \<le> hi"
    by (simp add: in_range_def list_all_iff)
  with assms show ?thesis by (simp add: pixel_def)
qed

text \<open>One row of the interpolation: between two horizontal neighbours.\<close>

lemma row_sample_in_range:
  assumes src: "well_shaped src" "in_range lo hi src"
    and x: "0 \<le> x" "x \<le> real (ncols src) - 1"
    and r: "0 \<le> r" "r < int (nrows src)"
  shows "lo \<le> (1 - (x - of_int \<lfloor>x\<rfloor>)) * pixel src r \<lfloor>x\<rfloor>
              + (x - of_int \<lfloor>x\<rfloor>) * pixel src r (\<lfloor>x\<rfloor> + 1) \<and>
         (1 - (x - of_int \<lfloor>x\<rfloor>)) * pixel src r \<lfloor>x\<rfloor>
              + (x - of_int \<lfloor>x\<rfloor>) * pixel src r (\<lfloor>x\<rfloor> + 1) \<le> hi"
proof -
  have x0: "0 \<le> \<lfloor>x\<rfloor>" using x(1) by simp
  have "real_of_int \<lfloor>x\<rfloor> \<le> real (ncols src) - 1" using x(2) of_int_floor_le [of x] by linarith
  then have x0': "\<lfloor>x\<rfloor> < int (ncols src)" by linarith
  have fx: "0 \<le> x - of_int \<lfloor>x\<rfloor>" "x - of_int \<lfloor>x\<rfloor> \<le> 1" by linarith+
  note p0 = pixel_in_range [OF src r x0 x0']
  show ?thesis
  proof (cases "\<lfloor>x\<rfloor> + 1 < int (ncols src)")
    case True
    have "0 \<le> \<lfloor>x\<rfloor> + 1" using x0 by simp
    note p1 = pixel_in_range [OF src r this True]
    from lerp_bounds [OF fx] p0 p1 show ?thesis by blast
  next
    case False
    with x0' have "\<lfloor>x\<rfloor> = int (ncols src) - 1" by simp
    then have "real_of_int \<lfloor>x\<rfloor> = real (ncols src) - 1" by simp
    with x(2) of_int_floor_le [of x] have "x - of_int \<lfloor>x\<rfloor> = 0" by linarith
    with p0 show ?thesis by simp
  qed
qed

lemma bilinear_in_range:
  assumes src: "well_shaped src" "in_range lo hi src"
    and x: "0 \<le> x" "x \<le> real (ncols src) - 1"
    and y: "0 \<le> y" "y \<le> real (nrows src) - 1"
  shows "lo \<le> bilinear src x y \<and> bilinear src x y \<le> hi"
proof -
  have y0: "0 \<le> \<lfloor>y\<rfloor>" using y(1) by simp
  have "real_of_int \<lfloor>y\<rfloor> \<le> real (nrows src) - 1" using y(2) of_int_floor_le [of y] by linarith
  then have y0': "\<lfloor>y\<rfloor> < int (nrows src)" by linarith
  have fy: "0 \<le> y - of_int \<lfloor>y\<rfloor>" "y - of_int \<lfloor>y\<rfloor> \<le> 1" by linarith+
  note h0 = row_sample_in_range [OF src x y0 y0']
  show ?thesis
  proof (cases "\<lfloor>y\<rfloor> + 1 < int (nrows src)")
    case True
    have "0 \<le> \<lfloor>y\<rfloor> + 1" using y0 by simp
    note h1 = row_sample_in_range [OF src x this True]
    from lerp_bounds [OF fy] h0 h1 show ?thesis
      unfolding bilinear_def Let_def by blast
  next
    case False
    with y0' have "\<lfloor>y\<rfloor> = int (nrows src) - 1" by simp
    then have "real_of_int \<lfloor>y\<rfloor> = real (nrows src) - 1" by simp
    with y(2) of_int_floor_le [of y] have "y - of_int \<lfloor>y\<rfloor> = 0" by linarith
    with h0 show ?thesis by (simp add: bilinear_def Let_def)
  qed
qed

lemma clip_bounds: "lo \<le> hi \<Longrightarrow> lo \<le> clip x lo hi \<and> clip x lo hi \<le> hi"
  by (simp add: clip_def)

text \<open>
  Whenever \<open>advect_field\<close> returns, its result stays within the bounds of the field.
\<close>

lemma advect_field_in_range:
  assumes "well_shaped field" "in_range lo hi field"
    and adv: "advect_field field u v dt = Inr adv"
  shows "in_range lo hi adv"
proof -
  have src: "well_shaped (astype_float32 field)" "in_range lo hi (astype_float32 field)"
    using assms(1,2) by (simp_all add: in_range_def astype_float32_def well_shaped_def)
  from advect_field_cells [OF adv] have
    pos: "0 < nrows field" "0 < ncols field"
    and cells: "\<forall>c \<in> set (cells adv). \<exists>x y.
            c = bilinear (astype_float32 field)
                  (clip x 0 (real (ncols field) - 1)) (clip y 0 (real (nrows field) - 1))"
    by simp_all
  have "lo \<le> c \<and> c \<le> hi" if "c \<in> set (cells adv)" for c
  proof -
    from cells that obtain x y where
      c: "c = bilinear (astype_float32 field)
                    (clip x 0 (real (ncols field) - 1)) (clip y 0 (real (nrows field) - 1))"
      by blast
    from pos have "(0::real) \<le> real (ncols field) - 1" "(0::real) \<le> real (nrows field) - 1"
      by simp_all
    from clip_bounds [OF this(1), of x] clip_bounds [OF this(2), of y]
      bilinear_in_range [OF src, of "clip x 0 (real (ncols field) - 1)"
        "clip y 0 (real (nrows field) - 1)"]
    show ?thesis unfolding c by (simp add: astype_float32_def)
  qed
  then show ?thesis by (simp add: in_range_def list_all_iff)
qed

text \<open>
  C10.  For a field with all values in \<open>[lo, hi]\<close>, whatever the velocity fields and
  the time step, every field that \<open>advect_field\<close> returns has all its values in
  \<open>[lo, hi]\<close>: the backward origins are clipped into the grid and bilinear interpolation
  is a convex combination.  And \<open>advect_field\<close> does return, a field of the same shape,
  when the field is not empty and the velocity fields are \<open>float32\<close> arrays of its
  shape.  In particular a field within 0..255 stays within 0..255.
\<close>

theorem advection_keeps_range:
  assumes "well_shaped field" "in_range lo hi field"
  shows "(\<forall>adv. advect_field field u v dt = Inr adv \<longrightarrow> in_range lo hi adv) \<and>
         (0 < nrows field \<and> 0 < ncols field \<and>
          shape u = shape field \<and> shape v = shape field \<and>
          dtype u = Float32 \<and> dtype v = Float32 \<longrightarrow>
            (\<exists>adv. advect_field field u v dt = Inr adv \<and> shape adv = shape field \<and>
               in_range lo hi adv))"
proof (intro conjI allI impI)
  fix adv assume "advect_field field u v dt = Inr adv"
  with assms show "in_range lo hi adv" by (rule advect_field_in_range)
next
  assume h: "0 < nrows field \<and> 0 < ncols field \<and>
          shape u = shape field \<and> shape v = shape field \<and>
          dtype u = Float32 \<and> dtype v = Float32"
  then have "\<exists>adv. advect_field field u v dt = Inr adv \<and> shape adv = shape field"
    by (intro advect_field_Inr) simp_all
  then obtain adv where adv: "advect_field field u v dt = Inr adv" "shape adv = shape field"
    by blast
  from advect_field_in_range [OF assms adv(1)] adv
  show "\<exists>adv. advect_field field u v dt = Inr adv \<and> shape adv = shape field \<and>
               in_range lo hi adv" by blast
qed

theorem advection_keeps_range_witness:
  "\<exists>adv. advect_field (two_cells 10 250) (two_cells 0 (1 / 1200)) (two_cells 0 0) 600 = Inr adv \<and>
     shape adv = (1, 2) \<and> in_range 10 250 adv"
proof -
  have "well_shaped (two_cells 10 250)" "in_range 10 250 (two_cells 10 250)"
    by (simp_all add: two_cells_def well_shaped_def in_range_def)
  from advection_keeps_range [OF this, of "two_cells 0 (1 / 1200)" "two_cells 0 0" 600]
  show ?thesis
    by (simp add: two_cells_def shape_def)
qed

lemma zip_map_upt:
  "zip (map f [0..<n]) (map g [0..<n]) = map (\<lambda>k. (f k, g k)) [0..<n]"
  by (rule nth_equalityI) simp_all

lemma sub_zeros:
  "map2 (-) (map g [0..<n]) (replicate n (0::real)) = map g [0..<n]"
  by (rule nth_equalityI) simp_all

lemma bilinear_at_cell:
  assumes "a < ncols src" "b < nrows src"
  shows "bilinear src (real a) (real b) = cells src ! (b * ncols src + a)"
  using assms by (simp add: bilinear_def pixel_def Let_def)

lemma store_float32: "store Float32 = (\<lambda>x. x)"
  by (rule ext) simp

text \<open>
  C8, as amended.  Advecting a field that is not empty along an everywhere-zero
  (\<open>float32\<close>) velocity field of its shape returns the field itself, as a
  \<open>float32\<close> array, for every time step.
\<close>

theorem zero_velocity_identity:
  assumes "well_shaped field" "0 < nrows field" "0 < ncols field"
  shows "advect_field field (zeros_like field) (zeros_like field) dt =
           Inr (astype_float32 field)"
proof -
  let ?R = "nrows field" and ?C = "ncols field"
  let ?src = "astype_float32 field"
  have sample: "bilinear ?src (clip (real (k mod ?C)) 0 (real ?C - 1))
                  (clip (real (k div ?C)) 0 (real ?R - 1)) = cells field ! k"
    if "k < ?R * ?C" for k
  proof -
    from that have C: "0 < ?C" by (cases ?C) simp_all
    then have a: "k mod ?C < ?C" by simp
    from that have b: "k div ?C < ?R" by (simp add: less_mult_imp_div_less)
    from a have "real (k mod ?C) \<le> real ?C - 1" by linarith
    then have cx: "clip (real (k mod ?C)) 0 (real ?C - 1) = real (k mod ?C)"
      by (simp add: clip_def)
    from b have "real (k div ?C) \<le> real ?R - 1" by linarith
    then have cy: "clip (real (k div ?C)) 0 (real ?R - 1) = real (k div ?C)"
      by (simp add: clip_def)
    from a b have "bilinear ?src (real (k mod ?C)) (real (k div ?C)) =
        cells ?src ! (k div ?C * ncols ?src + k mod ?C)"
      by (intro bilinear_at_cell) (simp_all add: astype_float32_def)
    then show ?thesis by (simp add: cx cy astype_float32_def)
  qed
  have zero: "map (\<lambda>x. x * dt) (replicate (?R * ?C) 0) = replicate (?R * ?C) 0" by simp
  have xb: "np_sub (snd (mgrid ?R ?C)) (np_mul_scalar (zeros_like field) dt) =
      Inr \<lparr>dtype = Float32, nrows = ?R, ncols = ?C,
           cells = map (\<lambda>k. real (k mod ?C)) [0..<?R * ?C]\<rparr>"
    by (subst np_sub_same_shape)
      (simp_all add: mgrid_def np_mul_scalar_def zeros_like_def promote_def store_float32
        sub_zeros shape_def well_shaped_def)
  have yb: "np_sub (fst (mgrid ?R ?C)) (np_mul_scalar (zeros_like field) dt) =
      Inr \<lparr>dtype = Float32, nrows = ?R, ncols = ?C,
           cells = map (\<lambda>k. real (k div ?C)) [0..<?R * ?C]\<rparr>"
    by (subst np_sub_same_shape)
      (simp_all add: mgrid_def np_mul_scalar_def zeros_like_def promote_def store_float32
        sub_zeros shape_def well_shaped_def)
  have "advect_try field (zeros_like field) (zeros_like field) dt =
      Inr \<lparr>dtype = Float32, nrows = ?R, ncols = ?C, cells =
        map (\<lambda>k. bilinear ?src (clip (real (k mod ?C)) 0 (real ?C - 1))
                    (clip (real (k div ?C)) 0 (real ?R - 1))) [0..<?R * ?C]\<rparr>"
    using assms(2,3)
    by (simp add: advect_try_def exn_bind_def Let_def case_prod_beta xb yb cv2_remap_def
        np_clip_def shape_def zip_map_upt o_def)
  also have "map (\<lambda>k. bilinear ?src (clip (real (k mod ?C)) 0 (real ?C - 1))
                    (clip (real (k div ?C)) 0 (real ?R - 1))) [0..<?R * ?C] =
      map (\<lambda>k. cells field ! k) [0..<?R * ?C]"
    using sample by simp
  also have "\<dots> = cells field"
    using assms(1) map_nth [of "cells field"] by (simp add: well_shaped_def)
  finally show ?thesis by (simp add: advect_field_def astype_float32_def)
qed

theorem zero_velocity_identity_witness:
  "advect_field (two_cells 10 250) (zeros_like (two_cells 10 250))
     (zeros_like (two_cells 10 250)) 600 = Inr (two_cells 10 250)"
proof -
  have "well_shaped (two_cells 10 250)" "0 < nrows (two_cells 10 250)"
    "0 < ncols (two_cells 10 250)"
    by (simp_all add: two_cells_def well_shaped_def)
  from zero_velocity_identity [OF this, of 600] show ?thesis
    by (simp add: two_cells_def astype_float32_def)
qed

text \<open>
  C8 as stated fails: on the empty field, with the zero velocity field of its shape,
  OpenCV refuses the empty maps and \<open>advect_field\<close> raises \<open>ForecastError\<close>.
\<close>

theorem zero_velocity_counterexample:
  "well_shaped empty_field \<and>
   advect_field empty_field (zeros_like empty_field) (zeros_like empty_field) 600 =
     Inl (ForecastError ''Field advection failed: '' (Some (Cv2Error ''remap'')))"
  by (simp add: advect_field_def advect_try_def mgrid_def np_sub_def np_mul_scalar_def
      exn_bind_def Let_def empty_field_def zeros_like_def broadcast_dim_def promote_def
      cv2_remap_def stretch_def np_clip_def shape_def well_shaped_def)
subsection \<open>Claim C1: forecast grids stay in range\<close>

lemma clip_in_range: "in_range 0 255 (np_clip a 0 255)"
  by (simp add: in_range_def np_clip_def list_all_iff clip_def)

text \<open>
  On the field that \<open>advect_field\<close> returns, a \<open>float32\<close> array, the evolution model
  runs to its end, so that its result is clamped.
\<close>

lemma growth_decay_try_clamps:
  assumes "dtype a \<noteq> UInt8"
  shows "growth_decay_try a dt = Inr (apply_growth_decay_model a dt) \<and>
         in_range 0 255 (apply_growth_decay_model a dt)"
proof -
  from growth_decay_try_returns [OF assms, of dt] obtain r where
    r: "growth_decay_try a dt = Inr r" by blast
  then obtain b where "r = np_clip b 0 255"
    by (auto simp: growth_decay_try_def exn_bind_def Let_def split: sum.splits)
  with r show ?thesis by (simp add: apply_growth_decay_model_def clip_in_range)
qed

lemma to_uint8_in_range:
  assumes "0 \<le> x" "x \<le> 255"
  shows "to_uint8 x = of_int \<lfloor>x\<rfloor>" "0 \<le> to_uint8 x" "to_uint8 x \<le> 255"
proof -
  have "0 \<le> \<lfloor>x\<rfloor>" "\<lfloor>x\<rfloor> \<le> 255" using assms by (simp_all add: floor_le_iff)
  then have "\<lfloor>x\<rfloor> mod 256 = \<lfloor>x\<rfloor>" by simp
  with assms(1) show eq: "to_uint8 x = of_int \<lfloor>x\<rfloor>" by (simp add: to_uint8_def)
  from \<open>0 \<le> \<lfloor>x\<rfloor>\<close> \<open>\<lfloor>x\<rfloor> \<le> 255\<close> show "0 \<le> to_uint8 x" "to_uint8 x \<le> 255"
    unfolding eq by simp_all
qed

lemma astype_uint8_in_range:
  assumes "in_range 0 255 w"
  shows "in_range 0 255 (astype_uint8 w) \<and>
         cells (astype_uint8 w) = map (\<lambda>x. of_int \<lfloor>x\<rfloor>) (cells w)"
  using assms
  by (auto simp: in_range_def astype_uint8_def list_all_iff to_uint8_in_range)

text \<open>
  The working field of the loop, pass by pass: a property of the grids that follows from
  one pass holds of every result of the loop.
\<close>

lemma forecast_loop_working:
  assumes step: "\<And>k prev adv. working_field u v dt seed k = Inr prev \<Longrightarrow>
                   advect_field prev u v dt = Inr adv \<Longrightarrow>
                   Q k (astype_uint8 (apply_growth_decay_model adv dt))"
    and wf: "working_field u v dt seed (length acc) = Inr f"
    and loop: "forecast_loop config u v dt t steps (f, acc) = Inr (f', rs)"
    and acc: "\<forall>k < length acc. Q k (forecast_data (acc ! k))"
  shows "\<forall>k < length rs. Q k (forecast_data (rs ! k))"
  using wf loop acc
proof (induction steps arbitrary: f acc)
  case Nil
  then show ?case by simp
next
  case (Cons s steps)
  from Cons.prems(2) obtain adv where
    adv: "advect_field f u v dt = Inr adv"
    by (cases "advect_field f u v dt") (simp_all add: exn_bind_def)
  from Cons.prems(2) adv obtain t' where
    time: "datetime_add t (timedelta_minutes (s * forecast_interval_minutes config)) = Inr t'"
    by (cases "datetime_add t (timedelta_minutes (s * forecast_interval_minutes config))")
      (simp_all add: exn_bind_def Let_def)
  let ?f = "apply_growth_decay_model adv dt"
  let ?r = "\<lparr>forecast_time = t', forecast_data = astype_uint8 ?f,
     confidence = max (1 / 10) (1 - of_int s * (15 / 100)),
     forecast_method = ''fluid_dynamics''\<rparr>"
  from Cons.prems(2) adv time have
    loop': "forecast_loop config u v dt t steps (?f, acc @ [?r]) = Inr (f', rs)"
    by (simp add: exn_bind_def Let_def)
  from Cons.prems(1) adv have
    wf': "working_field u v dt seed (length (acc @ [?r])) = Inr ?f"
    by (simp add: exn_bind_def)
  from step [OF Cons.prems(1) adv] have new: "Q (length acc) (forecast_data ?r)" by simp
  have acc': "\<forall>k < length (acc @ [?r]). Q k (forecast_data ((acc @ [?r]) ! k))"
  proof (intro allI impI)
    fix k assume "k < length (acc @ [?r])"
    then consider "k < length acc" | "k = length acc" by fastforce
    then show "Q k (forecast_data ((acc @ [?r]) ! k))"
    proof cases
      case 1
      with Cons.prems(3) show ?thesis by (simp add: nth_append)
    next
      case 2
      with new show ?thesis by (simp add: nth_append)
    qed
  qed
  from Cons.IH [OF wf' loop' acc'] show ?case .
qed

text \<open>
  C1.  Whenever \<open>generate_forecast\<close> returns, whatever values the frames hold and
  whatever the step count and the step interval are, the grid of its \<open>k\<close>-th result
  comes from the working field of the loop after \<open>k\<close> passes: that field was advected,
  the evolution model ran to its end on the advected field and clamped it, so that all
  values of the new working field lie in 0..255; the grid is its 8-bit conversion, which
  only drops the fraction of each value (no value is wrapped), so that all values of the
  grid lie in 0..255.
\<close>

theorem forecast_grids_in_range:
  assumes run: "generate_forecast config pyrLK gf frames = Inr rs"
  shows "\<exists>u_avg v_avg.
           calculate_average_velocity pyrLK gf
             (drop (length frames - min 10 (length frames)) frames) = Inr (u_avg, v_avg) \<and>
           (\<forall>k < length rs. \<exists>prev adv w.
              working_field u_avg v_avg (of_int (forecast_interval_minutes config * 60))
                (astype_float32 (data (last frames))) k = Inr prev \<and>
              advect_field prev u_avg v_avg (of_int (forecast_interval_minutes config * 60))
                = Inr adv \<and>
              growth_decay_try adv (of_int (forecast_interval_minutes config * 60)) = Inr w \<and>
              in_range 0 255 w \<and>
              forecast_data (rs ! k) = astype_uint8 w \<and>
              cells (forecast_data (rs ! k)) = map (\<lambda>x. of_int \<lfloor>x\<rfloor>) (cells w) \<and>
              in_range 0 255 (forecast_data (rs ! k)))"
proof -
  let ?recent = "drop (length frames - min 10 (length frames)) frames"
  from run have len: "3 \<le> length frames" and tr: "forecast_try config pyrLK gf frames = Inr rs"
    by (auto simp: generate_forecast_def split: if_splits sum.splits)
  then obtain u v where uv: "calculate_average_velocity pyrLK gf ?recent = Inr (u, v)"
    by (cases "calculate_average_velocity pyrLK gf ?recent")
      (auto simp: forecast_try_def Let_def exn_bind_def)
  let ?dt = "real_of_int (forecast_interval_minutes config * 60)"
  have rlast: "last ?recent = last frames" using len by simp
  let ?seed = "astype_float32 (data (last frames))"
  from tr uv rlast obtain f' where loop:
    "forecast_loop config u v ?dt (timestamp (last frames))
      [1..forecast_steps config] (?seed, []) = Inr (f', rs)"
    by (cases "forecast_loop config u v ?dt (timestamp (last frames))
      [1..forecast_steps config] (?seed, [])")
      (auto simp: forecast_try_def Let_def exn_bind_def)
  let ?Q = "\<lambda>k g. \<exists>prev adv w.
              working_field u v ?dt ?seed k = Inr prev \<and>
              advect_field prev u v ?dt = Inr adv \<and>
              growth_decay_try adv ?dt = Inr w \<and>
              in_range 0 255 w \<and>
              g = astype_uint8 w \<and>
              cells g = map (\<lambda>x. of_int \<lfloor>x\<rfloor>) (cells w) \<and>
              in_range 0 255 g"
  have step: "?Q k (astype_uint8 (apply_growth_decay_model adv ?dt))"
    if prev: "working_field u v ?dt ?seed k = Inr prev"
      and adv: "advect_field prev u v ?dt = Inr adv" for k prev adv
  proof -
    from advect_field_cells [OF adv] have "dtype adv \<noteq> UInt8" by simp
    from growth_decay_try_clamps [OF this, of ?dt] have
      w: "growth_decay_try adv ?dt = Inr (apply_growth_decay_model adv ?dt)"
        "in_range 0 255 (apply_growth_decay_model adv ?dt)" by simp_all
    from astype_uint8_in_range [OF w(2)] prev adv w show ?thesis by blast
  qed
  have seed: "working_field u v ?dt ?seed (length ([] :: ForecastResult list)) = Inr ?seed"
    by simp
  have "\<forall>k < length rs. ?Q k (forecast_data (rs ! k))"
    by (rule forecast_loop_working [where Q = ?Q, OF step seed loop]) simp_all
  with uv show ?thesis by blast
qed

theorem forecast_grids_in_range_witness:
  "\<exists>rs. generate_forecast default_config still_tracker no_smoothing ten_blank_frames = Inr rs \<and>
     length rs = 6 \<and> in_range 0 255 (forecast_data (rs ! 0)) \<and>
     in_range 0 255 (forecast_data (rs ! 5))"
proof -
  from ten_blank_frames_run obtain rs where
    run: "generate_forecast default_config still_tracker no_smoothing ten_blank_frames = Inr rs" ..
  from forecast_grids_in_range [OF run]
  have all: "\<forall>k < length rs. in_range 0 255 (forecast_data (rs ! k))" by blast
  from generate_forecast_results [OF run] have
    "length (map confidence rs) = length [1..forecast_steps default_config]" by simp
  then have n: "length rs = 6" by (simp add: default_config_def)
  with all run show ?thesis by simp
qed
subsection \<open>Claim C5: the averaged velocity field\<close>

lemma sum_arrays_simps [simp]:
  "sum_arrays a [] = a"
  "sum_arrays a (b # bs) = sum_arrays (a\<lparr>cells := map2 (+) (cells a) (cells b)\<rparr>) bs"
  by (simp_all add: sum_arrays_def)

lemma sum_arrays_frame [simp]:
  "nrows (sum_arrays a bs) = nrows a" "ncols (sum_arrays a bs) = ncols a"
  "dtype (sum_arrays a bs) = dtype a"
  by (induction bs arbitrary: a) simp_all

lemma sum_arrays_cells:
  assumes "\<forall>b \<in> set bs. length (cells b) = length (cells a)"
  shows "length (cells (sum_arrays a bs)) = length (cells a) \<and>
         (\<forall>k < length (cells a).
            cells (sum_arrays a bs) ! k = cells a ! k + (\<Sum>b\<leftarrow>bs. cells b ! k))"
  using assms
proof (induction bs arbitrary: a)
  case Nil
  show ?case by simp
next
  case (Cons b bs)
  let ?a = "a\<lparr>cells := map2 (+) (cells a) (cells b)\<rparr>"
  from Cons.prems have len: "length (cells ?a) = length (cells a)" by simp
  with Cons.prems have "\<forall>c \<in> set bs. length (cells c) = length (cells ?a)" by simp
  from Cons.IH [OF this] len Cons.prems show ?case by (simp add: add.assoc)
qed

lemma velocity_step_skip:
  "calculate_optical_flow pyrLK gf (fst p) (snd p) = Inl e \<Longrightarrow> velocity_step pyrLK gf st p = st"
  by (simp add: velocity_step_def)

lemma velocity_step_add:
  assumes "calculate_optical_flow pyrLK gf (fst p) (snd p) = Inr (u, v)"
    and "shape u = shape us" "shape v = shape vs"
    and "well_shaped u" "well_shaped v"
  shows "velocity_step pyrLK gf (Some (us, vs), n) p =
           (Some (us\<lparr>cells := map2 (+) (cells us) (cells u)\<rparr>,
                  vs\<lparr>cells := map2 (+) (cells vs) (cells v)\<rparr>), Suc n)"
proof -
  from assms(2,4) have "np_iadd us u = Inr (us\<lparr>cells := map2 (+) (cells us) (cells u)\<rparr>)"
    by (intro np_iadd_same_shape) simp_all
  moreover
  from assms(3,5) have "np_iadd vs v = Inr (vs\<lparr>cells := map2 (+) (cells vs) (cells v)\<rparr>)"
    by (intro np_iadd_same_shape) simp_all
  ultimately show ?thesis using assms(1) by (simp add: velocity_step_def)
qed

lemma velocity_loop_sums:
  assumes gf: "shape_preserving gf"
    and pairs: "\<forall>p \<in> set pairs. shape (fst p) = s"
    and sums: "shape us = s" "shape vs = s"
  shows "foldl (velocity_step pyrLK gf) (Some (us, vs), n) pairs =
           (Some (sum_arrays us (map fst (successful_flows pyrLK gf pairs)),
                  sum_arrays vs (map snd (successful_flows pyrLK gf pairs))),
            n + length (successful_flows pyrLK gf pairs))"
  using pairs sums
proof (induction pairs arbitrary: us vs n)
  case Nil
  show ?case by (simp add: successful_flows_def)
next
  case (Cons p pairs)
  from Cons.prems have rest: "\<forall>p \<in> set pairs. shape (fst p) = s" and p: "shape (fst p) = s"
    by simp_all
  show ?case
  proof (cases "calculate_optical_flow pyrLK gf (fst p) (snd p)")
    case (Inl e)
    then have "successful_flows pyrLK gf (p # pairs) = successful_flows pyrLK gf pairs"
      by (simp add: successful_flows_def)
    with Inl Cons.IH [OF rest Cons.prems(2,3), of n] show ?thesis
      by (simp add: velocity_step_skip)
  next
    case (Inr uv)
    obtain u v where uv: "uv = (u, v)" by (cases uv) auto
    from calculate_optical_flow_shape [OF gf, of pyrLK "fst p" "snd p" u v] Inr uv p
    have sh: "shape u = s" "shape v = s" "well_shaped u" "well_shaped v" by simp_all
    let ?us = "us\<lparr>cells := map2 (+) (cells us) (cells u)\<rparr>"
    let ?vs = "vs\<lparr>cells := map2 (+) (cells vs) (cells v)\<rparr>"
    have step: "velocity_step pyrLK gf (Some (us, vs), n) p = (Some (?us, ?vs), Suc n)"
      using Inr uv sh Cons.prems(2,3) by (intro velocity_step_add) simp_all
    have "shape ?us = s" "shape ?vs = s" using Cons.prems(2,3) by (simp_all add: shape_def)
    from Cons.IH [OF rest this, of "Suc n"]
    have "foldl (velocity_step pyrLK gf) (Some (?us, ?vs), Suc n) pairs =
           (Some (sum_arrays ?us (map fst (successful_flows pyrLK gf pairs)),
                  sum_arrays ?vs (map snd (successful_flows pyrLK gf pairs))),
            Suc n + length (successful_flows pyrLK gf pairs))" .
    moreover have "successful_flows pyrLK gf (p # pairs) = (u, v) # successful_flows pyrLK gf pairs"
      using Inr uv by (simp add: successful_flows_def)
    ultimately show ?thesis using step by simp
  qed
qed

lemma velocity_loop_first:
  assumes gf: "shape_preserving gf"
    and pairs: "\<forall>p \<in> set pairs. shape (fst p) = s"
  shows "foldl (velocity_step pyrLK gf) (None, 0) pairs =
           (case successful_flows pyrLK gf pairs of
              [] \<Rightarrow> (None, 0)
            | uv # rest \<Rightarrow>
                (Some (sum_arrays (fst uv) (map fst rest), sum_arrays (snd uv) (map snd rest)),
                 Suc (length rest)))"
  using pairs
proof (induction pairs)
  case Nil
  show ?case by (simp add: successful_flows_def)
next
  case (Cons p pairs)
  from Cons.prems have rest: "\<forall>p \<in> set pairs. shape (fst p) = s" and p: "shape (fst p) = s"
    by simp_all
  show ?case
  proof (cases "calculate_optical_flow pyrLK gf (fst p) (snd p)")
    case (Inl e)
    then have "successful_flows pyrLK gf (p # pairs) = successful_flows pyrLK gf pairs"
      by (simp add: successful_flows_def)
    with Inl Cons.IH [OF rest] show ?thesis by (simp add: velocity_step_skip)
  next
    case (Inr uv)
    obtain u v where uv: "uv = (u, v)" by (cases uv) auto
    from calculate_optical_flow_shape [OF gf, of pyrLK "fst p" "snd p" u v] Inr uv p
    have sh: "shape u = s" "shape v = s" by simp_all
    have step: "velocity_step pyrLK gf (None, 0) p = (Some (u, v), Suc 0)"
      using Inr uv by (simp add: velocity_step_def)
    have flows: "successful_flows pyrLK gf (p # pairs) = (u, v) # successful_flows pyrLK gf pairs"
      using Inr uv by (simp add: successful_flows_def)
    from velocity_loop_sums [OF gf rest sh, of pyrLK "Suc 0"] step flows
    show ?thesis by simp
  qed
qed

lemma successful_flows_shape:
  assumes gf: "shape_preserving gf"
    and pairs: "\<forall>p \<in> set pairs. shape (fst p) = s"
    and uv: "uv \<in> set (successful_flows pyrLK gf pairs)"
  shows "shape (fst uv) = s \<and> shape (snd uv) = s \<and> well_shaped (fst uv) \<and> well_shaped (snd uv)"
proof -
  from uv obtain p where p: "p \<in> set pairs"
    "calculate_optical_flow pyrLK gf (fst p) (snd p) = Inr uv"
    by (auto simp: successful_flows_def split: sum.splits)
  from calculate_optical_flow_shape [OF gf, of pyrLK "fst p" "snd p" "fst uv" "snd uv"] p pairs
  show ?thesis by simp
qed

lemma mean_of_sum:
  assumes a: "well_shaped a"
    and bs: "\<forall>b \<in> set bs. shape b = shape a \<and> well_shaped b"
  shows "np_div_scalar (sum_arrays a bs) (Suc (length bs)) = mean_array (a # bs)"
proof -
  have len: "\<forall>b \<in> set bs. length (cells b) = length (cells a)"
    using a bs by (auto simp: well_shaped_def shape_def)
  note sum = sum_arrays_cells [OF len]
  have n: "length (cells a) = nrows a * ncols a" using a by (simp add: well_shaped_def)
  have "map (\<lambda>x. x / real (Suc (length bs))) (cells (sum_arrays a bs)) =
        map (\<lambda>k. (\<Sum>c\<leftarrow>a # bs. cells c ! k) / real (Suc (length bs))) [0..<nrows a * ncols a]"
    using sum n by (intro nth_equalityI) simp_all
  then show ?thesis
    by (simp add: np_div_scalar_def mean_array_def)
qed

text \<open>
  C5, as amended.  Given at least 2 frames of one shape, \<open>calculate_average_velocity\<close>
  returns the element-wise mean of the velocity fields of exactly those consecutive
  pairs whose motion estimation succeeds (the sum of \<open>u\<close> and of \<open>v\<close> divided by
  the number of successful pairs); the pairs whose estimation raises are skipped; and if
  no pair succeeds it raises \<open>ForecastError\<close> ("No valid frame pairs for velocity
  calculation").
\<close>

theorem average_velocity_is_mean:
  assumes gf: "shape_preserving gf"
    and len: "2 \<le> length frames"
    and shapes: "\<forall>f \<in> set frames. shape (data f) = s"
  shows "calculate_average_velocity pyrLK gf frames =
           (if successful_flows pyrLK gf (consecutive_pairs frames) = []
            then Inl (ForecastError ''No valid frame pairs for velocity calculation'' None)
            else Inr (mean_array (map fst (successful_flows pyrLK gf (consecutive_pairs frames))),
                      mean_array (map snd (successful_flows pyrLK gf (consecutive_pairs frames)))))"
proof -
  let ?fl = "successful_flows pyrLK gf (consecutive_pairs frames)"
  note pairs = consecutive_pairs_shape [OF shapes]
  note loop = velocity_loop_first [OF gf pairs, of pyrLK]
  show ?thesis
  proof (cases ?fl)
    case Nil
    with loop len show ?thesis by (simp add: calculate_average_velocity_def)
  next
    case (Cons uv rest)
    have all: "\<forall>x \<in> set ?fl. shape (fst x) = s \<and> shape (snd x) = s \<and>
                 well_shaped (fst x) \<and> well_shaped (snd x)"
      using successful_flows_shape [OF gf pairs] by blast
    with Cons have head: "well_shaped (fst uv)" "well_shaped (snd uv)"
      "shape (fst uv) = s" "shape (snd uv) = s" by simp_all
    from all Cons head have
      "\<forall>b \<in> set (map fst rest). shape b = shape (fst uv) \<and> well_shaped b"
      "\<forall>b \<in> set (map snd rest). shape b = shape (snd uv) \<and> well_shaped b" by auto
    from mean_of_sum [OF head(1) this(1)] mean_of_sum [OF head(2) this(2)]
    have mean: "np_div_scalar (sum_arrays (fst uv) (map fst rest)) (Suc (length rest)) =
                  mean_array (map fst ?fl)"
      "np_div_scalar (sum_arrays (snd uv) (map snd rest)) (Suc (length rest)) =
                  mean_array (map snd ?fl)"
      using Cons by simp_all
    from loop Cons len have "calculate_average_velocity pyrLK gf frames =
        Inr (np_div_scalar (sum_arrays (fst uv) (map fst rest)) (Suc (length rest)),
             np_div_scalar (sum_arrays (snd uv) (map snd rest)) (Suc (length rest)))"
      by (simp add: calculate_average_velocity_def)
    with mean Cons show ?thesis by simp
  qed
qed

lemma failing_tracker_flow:
  "calculate_optical_flow failing_tracker gf a b =
     Inl (ForecastError ''Optical flow calculation failed: ''
            (Some (Cv2Error ''calcOpticalFlowPyrLK'')))"
  by (simp add: calculate_optical_flow_def optical_flow_try_def failing_tracker_def
      exn_bind_def Let_def)

text \<open>
  C5 as stated fails: when the tracker raises on the only pair, the aggregator raises
  \<open>ForecastError\<close>, not \<open>InsufficientDataError\<close>.
\<close>

theorem average_velocity_counterexample:
  "calculate_average_velocity failing_tracker no_smoothing
     [blank_frame 1 10 0, blank_frame 1 10 600000000] =
     Inl (ForecastError ''No valid frame pairs for velocity calculation'' None) \<and>
   calculate_average_velocity failing_tracker no_smoothing
     [blank_frame 1 10 0, blank_frame 1 10 600000000] \<noteq> Inl InsufficientDataError"
  by (simp add: calculate_average_velocity_def consecutive_pairs_def velocity_step_def
      failing_tracker_flow)

theorem average_velocity_is_mean_witness:
  "calculate_average_velocity still_tracker no_smoothing
     [blank_frame 1 10 0, blank_frame 1 10 600000000] =
     Inr (mean_array (map fst (successful_flows still_tracker no_smoothing
            (consecutive_pairs [blank_frame 1 10 0, blank_frame 1 10 600000000]))),
          mean_array (map snd (successful_flows still_tracker no_smoothing
            (consecutive_pairs [blank_frame 1 10 0, blank_frame 1 10 600000000])))) \<and>
   length (successful_flows still_tracker no_smoothing
            (consecutive_pairs [blank_frame 1 10 0, blank_frame 1 10 600000000])) = 1"
proof -
  let ?frames = "[blank_frame 1 10 0, blank_frame 1 10 600000000]"
  have "\<exists>uv. calculate_optical_flow still_tracker no_smoothing
               (data (blank_frame 1 10 0)) (data (blank_frame 1 10 600000000)) = Inr uv"
    by (rule calculate_optical_flow_returns [where flow = "Some (anchors 1 10)"])
      (simp_all add: still_tracker_def blank_frame_def)
  then have one: "length (successful_flows still_tracker no_smoothing (consecutive_pairs ?frames)) = 1"
    by (auto simp: successful_flows_def consecutive_pairs_def)
  then have ne: "successful_flows still_tracker no_smoothing (consecutive_pairs ?frames) \<noteq> []"
    by auto
  have "2 \<le> length ?frames" "\<forall>f \<in> set ?frames. shape (data f) = (1, 10)"
    by (simp_all add: blank_frame_def shape_def)
  from average_velocity_is_mean [OF shape_preserving_no_smoothing this, of still_tracker] ne one
  show ?thesis by simp
qed
subsection \<open>Claim C9: where the displacements are written\<close>

lemma range10_11: "range10 11 = [0, 10]"
  by (simp add: range10_def upt_rec)

lemma range10_15: "range10 15 = [0, 10]"
  by (simp add: range10_def upt_rec)

lemma anchors_11_15: "anchors 11 15 = [(0, 0), (10, 0), (0, 10), (10, 10)]"
  by (simp add: anchors_def range10_11 range10_15)

text \<open>
  C9 fails on the code.  On a frame of 11 rows and 15 columns the anchors are (0, 0),
  (10, 0), (0, 10) and (10, 10) (column, row).  When the tracker finds every anchor
  where it was, every displacement is zero; the loop nevertheless writes 10 into
  \<open>u\<close> and -10 into \<open>v\<close> at row 10, column 0, because it recovers the anchor of
  the second point with \<open>cols // 10 = 1\<close> anchors per row where the sampling made 2.
\<close>

theorem displacement_written_to_wrong_cell:
  "\<exists>u v. velocity_field (data (blank_frame 11 15 0)) (Some (anchors 11 15)) = Inr (u, v) \<and>
     cells u ! (10 * 15 + 0) = 10 \<and> cells v ! (10 * 15 + 0) = - 10"
  by (simp add: velocity_field_def anchors_11_15 blank_frame_def zeros_like_def
      enumerate_eq_zip upt_rec setitem_def Let_def)

text \<open>
  The same division by \<open>cols // 10\<close> is a division by zero on a frame of fewer than
  10 columns: as soon as the tracker returns a point, the motion estimate of the pair
  fails.
\<close>

lemma narrow_frame_flow_fails:
  assumes "ncols frame1 < 10"
    and "pyrLK (astype_uint8 (np_clip frame1 0 255)) (astype_uint8 (np_clip frame2 0 255))
           (anchors (nrows frame1) (ncols frame1)) = Inr (Some (p # pts))"
  shows "calculate_optical_flow pyrLK gf frame1 frame2 =
           Inl (ForecastError ''Optical flow calculation failed: '' (Some ZeroDivisionError))"
proof -
  obtain x y where p: "p = (x, y)" by (cases p) auto
  from assms(1) have "velocity_field frame1 (Some (p # pts)) = Inl ZeroDivisionError"
    by (simp add: velocity_field_def Let_def p enumerate_simps)
  with assms(2) show ?thesis
    by (simp add: calculate_optical_flow_def optical_flow_try_def Let_def exn_bind_def)
qed
end
